theory Spec2Isabelle
  imports Complex_Main
begin

section \<open>Data model\<close>

text \<open>
  The embedding follows three source files: the \<open>DataHandler\<close> class (the data-access
  layer: request primitive, entity cache, sync queue), the \<open>AuthManager\<close> class of
  \<open>js/Auth.js\<close> (login and lockout) and the \<open>PMS_API\<close> module of \<open>js/reports.js\<close>
  (the calendar fallback of the time window), with the \<open>PMS_CONFIG\<close> month ranges.

  Timestamps (\<open>Date.now()\<close>) are integers; the numbers that the code computes with
  are doubles (see below). The values read from the clock and from \<open>Math.random()\<close>
  and the outcome of every \<open>fetch\<close> are inputs of the model. Cached entities and
  responses have the shape that the callers in the repository give them.
  An \<open>async\<close> method is modelled as one uninterrupted call (no other method runs
  between its suspension points), except where a section says otherwise.
\<close>

datatype http_method = GET | POST | PUT | PATCH | DELETE

subsection \<open>Numbers\<close>

text \<open>
  A JavaScript number is an IEEE 754 double: a finite value, an infinity or \<open>NaN\<close>. A
  finite double is kept as the rational it denotes (the two zeros are one value). An
  arithmetic operation gives the exact result rounded to the nearest double, ties to
  the even significand: 53 significant bits, so the spacing is \<open>2 ^ (e - 52)\<close> for a
  magnitude from \<open>2 ^ e\<close> up to \<open>2 ^ (e + 1)\<close>, never finer than \<open>2 ^ (- 1074)\<close>, and the
  result is an infinity once the rounded magnitude reaches \<open>2 ^ 1024\<close>.
\<close>

datatype number = Finite rat | PositiveInfinity | NegativeInfinity | NaN

text \<open>The number of binary digits of a positive integer.\<close>

function bit_length :: "int \<Rightarrow> int" where
  "bit_length n = (if n \<le> 0 then 0 else 1 + bit_length (n div 2))"
  by pat_completeness auto
termination
  by (relation "measure nat") auto

declare bit_length.simps [simp del]

definition pow2 :: "int \<Rightarrow> rat" where
  "pow2 k = (if 0 \<le> k then 2 ^ nat k else 1 / 2 ^ nat (- k))"

text \<open>For \<open>x > 0\<close>, the exponent \<open>e\<close> with \<open>2 ^ e \<le> x < 2 ^ (e + 1)\<close>.\<close>

definition binade :: "rat \<Rightarrow> int" where
  "binade x =
     (if 1 \<le> x then bit_length \<lfloor>x\<rfloor> - 1
      else - bit_length (\<lceil>1 / x\<rceil> - 1))"

definition round_half_even :: "rat \<Rightarrow> int" where
  "round_half_even x =
     (let f = \<lfloor>x\<rfloor>; r = x - of_int f
      in if r < 1 / 2 then f else if 1 / 2 < r then f + 1 else if even f then f else f + 1)"

definition round_double :: "rat \<Rightarrow> rat" where
  "round_double x =
     (if x = 0 then 0
      else
        (let ulp = pow2 (max (binade \<bar>x\<bar>) (- 1022) - 52)
         in sgn x * (of_int (round_half_even (\<bar>x\<bar> / ulp)) * ulp)))"

definition number_of :: "rat \<Rightarrow> number" where
  "number_of x =
     (let y = round_double x
      in if y = 0 \<or> binade \<bar>y\<bar> < 1024 then Finite y
         else if 0 < y then PositiveInfinity
         else NegativeInfinity)"

text \<open>The operators \<open>+\<close>, \<open>*\<close> and \<open>/\<close> on numbers; a zero divisor is taken as \<open>+0\<close>.\<close>

fun number_add :: "number \<Rightarrow> number \<Rightarrow> number" where
  "number_add (Finite a) (Finite b) = number_of (a + b)"
| "number_add NaN y = NaN"
| "number_add x NaN = NaN"
| "number_add PositiveInfinity NegativeInfinity = NaN"
| "number_add NegativeInfinity PositiveInfinity = NaN"
| "number_add (Finite a) y = y"
| "number_add x y = x"

fun number_sign :: "number \<Rightarrow> int" where
  "number_sign (Finite a) = (if a < 0 then - 1 else if a = 0 then 0 else 1)"
| "number_sign PositiveInfinity = 1"
| "number_sign NegativeInfinity = - 1"
| "number_sign NaN = 0"

fun number_times :: "number \<Rightarrow> number \<Rightarrow> number" where
  "number_times (Finite a) (Finite b) = number_of (a * b)"
| "number_times NaN y = NaN"
| "number_times x NaN = NaN"
| "number_times x y =
     (if number_sign x * number_sign y = 0 then NaN
      else if 0 < number_sign x * number_sign y then PositiveInfinity
      else NegativeInfinity)"

fun number_divide :: "number \<Rightarrow> number \<Rightarrow> number" where
  "number_divide (Finite a) (Finite b) =
     (if b \<noteq> 0 then number_of (a / b)
      else if a = 0 then NaN else if 0 < a then PositiveInfinity else NegativeInfinity)"
| "number_divide NaN y = NaN"
| "number_divide x NaN = NaN"
| "number_divide (Finite a) y = Finite 0"
| "number_divide x (Finite b) =
     (if (0 < number_sign x) = (0 \<le> b) then PositiveInfinity else NegativeInfinity)"
| "number_divide x y = NaN"

text \<open>
  \<open>Math.round\<close>: the nearest integer, a half going up. The result needs no rounding:
  a double with a fractional part is below \<open>2 ^ 52\<close>.
\<close>

fun Math_round :: "number \<Rightarrow> number" where
  "Math_round (Finite x) = Finite (of_int \<lfloor>x + 1 / 2\<rfloor>)"
| "Math_round x = x"

subsection \<open>Entities\<close>

text \<open>A plain JSON object with string members; \<open>{...a, ...b}\<close> is \<open>a ++ b\<close>.\<close>

type_synonym obj = "string \<rightharpoonup> string"

record goal =
  goal_id :: string
  kra_title :: string
  weightage :: rat
  achieved_ratio :: "rat option"

text \<open>The argument of \<open>updateGoal\<close>: the members present in \<open>goalData\<close>.\<close>

record goalData =
  new_id :: "string option"
  new_kra_title :: "string option"
  new_weightage :: "rat option"
  new_achieved_ratio :: "rat option"

record competency =
  competency_name :: string
  competency_total_score :: "rat option"

text \<open>
  What is cached and sent as the competencies of an employee: an array of
  competencies, which is what \<open>calculateOfflinePerformanceSummary\<close> reads, or the
  \<open>evaluationData\<close> object of \<open>BehaviouralCompetencyManager\<close>, keyed by competency id,
  which is what that class passes to \<open>saveBehaviouralCompetencies\<close>.
\<close>

datatype competencyData =
    CompetencyList "competency list"
  | EvaluationData "string \<rightharpoonup> obj"

text \<open>
  \<open>this.db.systemConfig\<close> and the \<open>settings\<close> argument of \<open>updateSystemSettings\<close>: an
  object whose members are time-window data (what \<open>getActiveTimeWindow\<close> caches under
  \<open>timeWindow\<close>) or strings. Of these only the empty string is falsy.
\<close>

datatype config_value = WindowValue "string \<rightharpoonup> bool \<times> bool" | TextValue string

type_synonym systemConfig = "string \<rightharpoonup> config_value"


datatype payload =
    NoData
  | ObjectData obj
  | ConfigData systemConfig
  | GoalsData "goal list"
  | GoalData goalData
  | CompetencyData competencyData

text \<open>An element of \<open>this.syncQueue\<close>, as \<open>addToSyncQueue\<close> builds it.\<close>

record syncItem =
  item_id :: rat
  endpoint :: string
  item_method :: http_method
  data :: payload
  timestamp :: int
  retryCount :: nat

text \<open>What one call of \<open>addToSyncQueue\<close> reads from its environment.\<close>

record samples =
  dateNow_id :: int
  mathRandom :: rat
  dateNow_timestamp :: int

type_synonym env = "nat \<Rightarrow> samples"

record lockData =
  lock_timestamp :: int
  lock_attempts :: nat

record sessionData =
  session_timestamp :: int
  session_empCode :: "string option"
  session_offline :: bool

record logEntry =
  log_timestamp :: int
  log_action :: string
  log_empCode :: string

text \<open>
  \<open>localStorage\<close>, one field per key the modelled code uses; \<open>None\<close> is an absent key.
  The first eight keys belong to \<open>DataHandler\<close>, the last four to \<open>AuthManager\<close>.
  A write that fails (quota) is swallowed by the source and is not modelled.
\<close>

record local_storage =
  pms_auth_token :: "string option"
  pms_currentUser :: "obj option"
  pms_employees :: "(string \<rightharpoonup> obj) option"
  pms_goals :: "(string \<rightharpoonup> goal list) option"
  pms_competencies :: "(string \<rightharpoonup> competencyData) option"
  pms_competencyMaster :: "obj list option"
  pms_systemConfig :: "systemConfig option"
  pms_syncQueue :: "syncItem list option"
  pms_current_user :: "obj option"
  pms_session :: "sessionData option"
  pms_account_lock :: "lockData option"
  pms_activity_logs :: "logEntry list"

text \<open>
  The \<open>DataHandler\<close> instance: \<open>this.isOnline\<close>, \<open>this.syncQueue\<close>, the members of
  \<open>this.db\<close>, and \<open>localStorage\<close>. Two fields record the interaction with the
  environment: \<open>fetched\<close> is the list of \<open>fetch\<close> calls made so far (URL, method,
  body), \<open>clockReads\<close> counts the calls of \<open>addToSyncQueue\<close>.
\<close>

record data_handler =
  isOnline :: bool
  syncQueue :: "syncItem list"
  db_employees :: "string \<rightharpoonup> obj"
  db_goals :: "string \<rightharpoonup> goal list"
  db_competencies :: "string \<rightharpoonup> competencyData"
  db_competencyMaster :: "obj list"
  db_systemConfig :: systemConfig
  localStorage :: local_storage
  fetched :: "(string \<times> http_method \<times> payload option) list"
  clockReads :: nat

datatype error =
    RequestFailed
  | TypeError
  | AuthenticationFailed "string option"
  | AccountLocked
  | InvalidEmployeeCode
  | ExportRequiresOnline

text \<open>The parsed body of a response whose \<open>data\<close> member the caller reads.\<close>

record 'd response =
  response_data :: 'd

record auth_response =
  success :: bool
  token :: string
  user :: obj
  message :: "string option"

record performance_summary =
  goalsProgress :: number
  competencyAverage :: number
  overallRating :: number
  offline :: bool

text \<open>
  The members of \<open>this.db\<close> are plain objects used as dictionaries. A read
  \<open>object[key]\<close> finds an own property, or else a member that every plain object
  inherits from \<open>Object.prototype\<close> (a function, or for \<open>__proto__\<close> the prototype
  itself: truthy, and neither an array nor cached data), or else \<open>undefined\<close>.
  The methods that compute with the entry they read (\<open>authenticateUser\<close>,
  \<open>updateGoal\<close>, \<open>deleteGoal\<close>, \<open>calculateOfflinePerformanceSummary\<close>) are modelled
  with this read. The getters, which hand the entry to their caller, are modelled for
  own entries, and a write \<open>object[key] = value\<close> as adding or replacing an own
  property.
\<close>

definition Object_prototype :: "string list" where
  "Object_prototype =
     [''constructor'', ''hasOwnProperty'', ''isPrototypeOf'', ''propertyIsEnumerable'',
      ''toLocaleString'', ''toString'', ''valueOf'', ''__defineGetter__'', ''__defineSetter__'',
      ''__lookupGetter__'', ''__lookupSetter__'', ''__proto__'']"

datatype 'a property = Undefined | Own 'a | Inherited

definition get_property :: "(string \<rightharpoonup> 'a) \<Rightarrow> string \<Rightarrow> 'a property" where
  "get_property object key' =
     (case object key' of
        Some v \<Rightarrow> Own v
      | None \<Rightarrow> if key' \<in> set Object_prototype then Inherited else Undefined)"

section \<open>DataHandler\<close>

subsection \<open>Configuration\<close>

definition gasUrl :: string where
  "gasUrl = ''https://script.google.com/macros/s/YOUR_SCRIPT_ID/exec''"

definition maxRetries :: nat where
  "maxRetries = 3"

definition endpoints_auth :: string where "endpoints_auth = ''/auth''"
definition endpoints_goals :: string where "endpoints_goals = ''/goals''"
definition endpoints_competencies :: string where "endpoints_competencies = ''/competencies''"
definition endpoints_systemConfig :: string where "endpoints_systemConfig = ''/system''"
definition endpoints_performance :: string where "endpoints_performance = ''/performance''"

subsection \<open>Local storage helpers\<close>

definition saveLocalData_syncQueue :: "data_handler \<Rightarrow> data_handler" where
  "saveLocalData_syncQueue s =
     s\<lparr>localStorage := (localStorage s)\<lparr>pms_syncQueue := Some (syncQueue s)\<rparr>\<rparr>"

definition saveLocalData_employees :: "data_handler \<Rightarrow> data_handler" where
  "saveLocalData_employees s =
     s\<lparr>localStorage := (localStorage s)\<lparr>pms_employees := Some (db_employees s)\<rparr>\<rparr>"

definition saveLocalData_goals :: "data_handler \<Rightarrow> data_handler" where
  "saveLocalData_goals s =
     s\<lparr>localStorage := (localStorage s)\<lparr>pms_goals := Some (db_goals s)\<rparr>\<rparr>"

definition saveLocalData_competencies :: "data_handler \<Rightarrow> data_handler" where
  "saveLocalData_competencies s =
     s\<lparr>localStorage := (localStorage s)\<lparr>pms_competencies := Some (db_competencies s)\<rparr>\<rparr>"

definition saveLocalData_competencyMaster :: "data_handler \<Rightarrow> data_handler" where
  "saveLocalData_competencyMaster s =
     s\<lparr>localStorage := (localStorage s)\<lparr>pms_competencyMaster := Some (db_competencyMaster s)\<rparr>\<rparr>"

definition saveLocalData_systemConfig :: "data_handler \<Rightarrow> data_handler" where
  "saveLocalData_systemConfig s =
     s\<lparr>localStorage := (localStorage s)\<lparr>pms_systemConfig := Some (db_systemConfig s)\<rparr>\<rparr>"

text \<open>
  The class defines \<open>getLocalData\<close>, \<open>saveLocalData\<close> and \<open>removeLocalData\<close>. It
  defines no \<open>setLocalData\<close>, the method that \<open>authenticateUser\<close> calls: the call
  throws a \<open>TypeError\<close> and writes nothing.
\<close>

definition setLocalData :: "string \<Rightarrow> obj \<Rightarrow> data_handler \<Rightarrow> error + data_handler" where
  "setLocalData key' v s = Inl TypeError"

definition removeLocalData_currentUser :: "data_handler \<Rightarrow> data_handler" where
  "removeLocalData_currentUser s =
     s\<lparr>localStorage := (localStorage s)\<lparr>pms_currentUser := None\<rparr>\<rparr>"

definition setAuthToken :: "string \<Rightarrow> data_handler \<Rightarrow> data_handler" where
  "setAuthToken t s = s\<lparr>localStorage := (localStorage s)\<lparr>pms_auth_token := Some t\<rparr>\<rparr>"

definition removeAuthToken :: "data_handler \<Rightarrow> data_handler" where
  "removeAuthToken s = s\<lparr>localStorage := (localStorage s)\<lparr>pms_auth_token := None\<rparr>\<rparr>"

subsection \<open>The sync queue: enqueue and clear\<close>

text \<open>
  \<open>addToSyncQueue(endpoint, method, data)\<close>: the new item gets the id
  \<open>Date.now() + Math.random()\<close>, a sum of doubles and so rounded to a double, and
  \<open>retryCount: 0\<close>; it is pushed at the end of \<open>this.syncQueue\<close>, and the queue is
  persisted.
\<close>

definition addToSyncQueue :: "env \<Rightarrow> string \<Rightarrow> http_method \<Rightarrow> payload \<Rightarrow> data_handler \<Rightarrow> data_handler" where
  "addToSyncQueue env ep m d s =
     (let smp = env (clockReads s);
          syncItem = \<lparr>item_id = round_double (of_int (dateNow_id smp) + mathRandom smp), endpoint = ep,
                      item_method = m, data = d, timestamp = dateNow_timestamp smp, retryCount = 0\<rparr>
      in saveLocalData_syncQueue
           (s\<lparr>syncQueue := syncQueue s @ [syncItem], clockReads := clockReads s + 1\<rparr>))"


subsection \<open>The request primitive\<close>

text \<open>
  \<open>makeRequest(endpoint, method, data, retryCount)\<close>. The oracle \<open>net\<close> gives the
  outcome of the attempt with a given \<open>retryCount\<close>: \<open>Some result\<close> when \<open>fetch\<close>
  resolves with an ok status and a JSON body, \<open>None\<close> when the \<open>try\<close> block throws.
  Each attempt is recorded in \<open>fetched\<close>. After the last failed attempt the source
  enqueues a mutating request itself when \<open>this.isOnline\<close> is false, then rethrows.
\<close>

function makeRequest ::
  "(nat \<Rightarrow> 'r option) \<Rightarrow> env \<Rightarrow> string \<Rightarrow> http_method \<Rightarrow> payload \<Rightarrow> nat \<Rightarrow> data_handler
     \<Rightarrow> (error + 'r) \<times> data_handler" where
  "makeRequest net env ep m d rc s =
     (let url = gasUrl @ ep;
          body = (if d \<noteq> NoData \<and> (m = POST \<or> m = PUT \<or> m = PATCH) then Some d else None);
          s1 = s\<lparr>fetched := fetched s @ [(url, m, body)]\<rparr>
      in case net rc of
           Some result \<Rightarrow> (Inr result, s1)
         | None \<Rightarrow>
             if rc < maxRetries then makeRequest net env ep m d (rc + 1) s1
             else (Inl RequestFailed,
                   if \<not> isOnline s1 \<and> (m = POST \<or> m = PUT \<or> m = PATCH)
                   then addToSyncQueue env ep m d s1 else s1))"
  by pat_completeness auto
termination
  by (relation "measure (\<lambda>(net, env, ep, m, d, rc, s). maxRetries - rc)") auto

subsection \<open>Authentication\<close>

text \<open>
  \<open>authenticateUser(employeeCode)\<close>. Everything after the request is inside the
  \<open>try\<close> block: an unsuccessful response throws there, and so does the call of
  \<open>setLocalData\<close> after a successful one (the token is stored by then, the employee
  is not cached yet). The \<open>catch\<close> looks the employee up in the cache; whatever it
  finds there that is truthy, a cached employee or an inherited member, it passes to
  \<open>setLocalData\<close>, which throws again.
\<close>

definition authenticateUser ::
  "(nat \<Rightarrow> auth_response option) \<Rightarrow> env \<Rightarrow> string \<Rightarrow> data_handler
     \<Rightarrow> (error + auth_response \<times> bool) \<times> data_handler" where
  "authenticateUser net env employeeCode s =
     (let attempt =
        (case makeRequest net env endpoints_auth POST
                (ObjectData [''employeeCode'' \<mapsto> employeeCode]) 0 s of
           (Inr response, s1) \<Rightarrow>
             if success response then
               (let s2 = setAuthToken (token response) s1
                in case setLocalData ''currentUser'' (user response) s2 of
                     Inl e \<Rightarrow> (Inl e, s2)
                   | Inr s3 \<Rightarrow>
                       (Inr (response, False),
                        saveLocalData_employees
                          (s3\<lparr>db_employees := (db_employees s3)(employeeCode \<mapsto> user response)\<rparr>)))
             else (Inl (AuthenticationFailed (message response)), s1)
         | (Inl e, s1) \<Rightarrow> (Inl e, s1))
      in case attempt of
           (Inr r, s') \<Rightarrow> (Inr r, s')
         | (Inl e, s') \<Rightarrow>
             (case get_property (db_employees s') employeeCode of
                Undefined \<Rightarrow> (Inl e, s')
              | Own cachedUser \<Rightarrow>
                  (case setLocalData ''currentUser'' cachedUser s' of
                     Inl e' \<Rightarrow> (Inl e', s')
                   | Inr s'' \<Rightarrow>
                       (Inr (\<lparr>success = True, token = [], user = cachedUser, message = None\<rparr>, True), s''))
              | Inherited \<Rightarrow> (Inl TypeError, s')))"


subsection \<open>Employees\<close>




subsection \<open>Goals\<close>

definition getGoals ::
  "(nat \<Rightarrow> goal list response option) \<Rightarrow> env \<Rightarrow> string \<Rightarrow> data_handler
     \<Rightarrow> (error + goal list) \<times> data_handler" where
  "getGoals net env empCode s =
     (case makeRequest net env (endpoints_goals @ ''/'' @ empCode) GET NoData 0 s of
        (Inr response, s1) \<Rightarrow>
          (Inr (response_data response),
           saveLocalData_goals (s1\<lparr>db_goals := (db_goals s1)(empCode \<mapsto> response_data response)\<rparr>))
      | (Inl e, s1) \<Rightarrow>
          (case db_goals s1 empCode of
             Some cached \<Rightarrow> (Inr cached, s1)
           | None \<Rightarrow> (Inl e, s1)))"

text \<open>
  \<open>saveGoals(empCode, goalsData)\<close>: on success the cache is written and the response
  returned; in the \<open>catch\<close> the request is enqueued, the cache is written, and the
  error is thrown again.
\<close>

definition saveGoals ::
  "(nat \<Rightarrow> 'r option) \<Rightarrow> env \<Rightarrow> string \<Rightarrow> goal list \<Rightarrow> data_handler \<Rightarrow> (error + 'r) \<times> data_handler" where
  "saveGoals net env empCode goalsData s =
     (case makeRequest net env (endpoints_goals @ ''/'' @ empCode) POST (GoalsData goalsData) 0 s of
        (Inr response, s1) \<Rightarrow>
          (Inr response,
           saveLocalData_goals (s1\<lparr>db_goals := (db_goals s1)(empCode \<mapsto> goalsData)\<rparr>))
      | (Inl e, s1) \<Rightarrow>
          (let s2 = addToSyncQueue env (endpoints_goals @ ''/'' @ empCode) POST (GoalsData goalsData) s1
           in (Inl e,
               saveLocalData_goals (s2\<lparr>db_goals := (db_goals s2)(empCode \<mapsto> goalsData)\<rparr>))))"

definition apply_goalData :: "goalData \<Rightarrow> goal \<Rightarrow> goal" where
  "apply_goalData d g =
     \<lparr>goal_id = (case new_id d of None \<Rightarrow> goal_id g | Some v \<Rightarrow> v),
      kra_title = (case new_kra_title d of None \<Rightarrow> kra_title g | Some v \<Rightarrow> v),
      weightage = (case new_weightage d of None \<Rightarrow> weightage g | Some v \<Rightarrow> v),
      achieved_ratio = (case new_achieved_ratio d of None \<Rightarrow> achieved_ratio g | Some v \<Rightarrow> Some v)\<rparr>"

text \<open>\<open>findIndex\<close>: the first index whose goal has the id, if any.\<close>

fun findIndex :: "string \<Rightarrow> goal list \<Rightarrow> nat option" where
  "findIndex goalId [] = None"
| "findIndex goalId (g # gs) =
     (if goal_id g = goalId then Some 0 else map_option Suc (findIndex goalId gs))"

text \<open>
  \<open>updateGoal\<close> and \<open>deleteGoal\<close>. The cache is updated inside the \<open>try\<close> block, when
  \<open>this.db.goals[empCode]\<close> is truthy: on an inherited member \<open>findIndex\<close> and \<open>filter\<close>
  do not exist, the call throws, and the \<open>catch\<close> enqueues the request although the
  server has answered it. The \<open>catch\<close> enqueues and throws again; it does not write
  the cache.
\<close>

definition updateGoal ::
  "(nat \<Rightarrow> 'r option) \<Rightarrow> env \<Rightarrow> string \<Rightarrow> string \<Rightarrow> goalData \<Rightarrow> data_handler
     \<Rightarrow> (error + 'r) \<times> data_handler" where
  "updateGoal net env empCode goalId d s =
     (case makeRequest net env (endpoints_goals @ ''/'' @ empCode @ ''/'' @ goalId) PUT (GoalData d) 0 s of
        (Inr response, s1) \<Rightarrow>
          (case get_property (db_goals s1) empCode of
             Undefined \<Rightarrow> (Inr response, s1)
           | Own gs \<Rightarrow>
               (Inr response,
                (case findIndex goalId gs of
                   None \<Rightarrow> s1
                 | Some goalIndex \<Rightarrow>
                     saveLocalData_goals
                       (s1\<lparr>db_goals := (db_goals s1)
                             (empCode \<mapsto> gs[goalIndex := apply_goalData d (gs ! goalIndex)])\<rparr>)))
           | Inherited \<Rightarrow>
               (Inl TypeError,
                addToSyncQueue env (endpoints_goals @ ''/'' @ empCode @ ''/'' @ goalId) PUT (GoalData d) s1))
      | (Inl e, s1) \<Rightarrow>
          (Inl e, addToSyncQueue env (endpoints_goals @ ''/'' @ empCode @ ''/'' @ goalId) PUT (GoalData d) s1))"


subsection \<open>Behavioural competencies\<close>



definition saveBehaviouralCompetencies ::
  "(nat \<Rightarrow> 'r option) \<Rightarrow> env \<Rightarrow> string \<Rightarrow> competencyData \<Rightarrow> data_handler
     \<Rightarrow> (error + 'r) \<times> data_handler" where
  "saveBehaviouralCompetencies net env empCode competencyData s =
     (case makeRequest net env (endpoints_competencies @ ''/'' @ empCode) POST
             (CompetencyData competencyData) 0 s of
        (Inr response, s1) \<Rightarrow>
          (Inr response,
           saveLocalData_competencies
             (s1\<lparr>db_competencies := (db_competencies s1)(empCode \<mapsto> competencyData)\<rparr>))
      | (Inl e, s1) \<Rightarrow>
          (let s2 = addToSyncQueue env (endpoints_competencies @ ''/'' @ empCode) POST
                      (CompetencyData competencyData) s1
           in (Inl e,
               saveLocalData_competencies
                 (s2\<lparr>db_competencies := (db_competencies s2)(empCode \<mapsto> competencyData)\<rparr>))))"

subsection \<open>System configuration\<close>


definition updateSystemSettings ::
  "(nat \<Rightarrow> 'r option) \<Rightarrow> env \<Rightarrow> systemConfig \<Rightarrow> data_handler \<Rightarrow> (error + 'r) \<times> data_handler" where
  "updateSystemSettings net env settings s =
     (case makeRequest net env (endpoints_systemConfig @ ''/settings'') POST (ConfigData settings) 0 s of
        (Inr response, s1) \<Rightarrow>
          (Inr response,
           saveLocalData_systemConfig (s1\<lparr>db_systemConfig := db_systemConfig s1 ++ settings\<rparr>))
      | (Inl e, s1) \<Rightarrow>
          (Inl e, addToSyncQueue env (endpoints_systemConfig @ ''/settings'') POST (ConfigData settings) s1))"

subsection \<open>Performance summary\<close>

text \<open>
  \<open>calculateOfflinePerformanceSummary(empCode)\<close>. \<open>this.db.goals[empCode] || []\<close> and
  \<open>this.db.competencies[empCode] || []\<close> replace \<open>undefined\<close> by an empty array and keep
  anything truthy. \<open>goals.filter\<close> and \<open>competencies.map\<close> then exist only on an array:
  on an inherited member or on an \<open>evaluationData\<close> object the call throws a
  \<open>TypeError\<close>. \<open>offline_summary\<close> is the rest of the body, on the two arrays.
\<close>

definition offline_summary :: "goal list \<Rightarrow> competency list \<Rightarrow> performance_summary" where
  "offline_summary goals competencies =
     (let completedGoals =
            length (filter (\<lambda>g. case achieved_ratio g of Some r \<Rightarrow> r \<ge> 100 | None \<Rightarrow> False) goals);
          goalsProgress =
            (if length goals > 0
             then number_times
                    (number_divide (Finite (of_nat completedGoals)) (Finite (of_nat (length goals))))
                    (Finite 100)
             else Finite 0);
          competencyScores =
            map (\<lambda>c. case competency_total_score c of Some v \<Rightarrow> Finite v | None \<Rightarrow> Finite 0) competencies;
          competencyAverage =
            (if length competencyScores > 0
             then number_divide (foldl (\<lambda>a b. number_add a b) (Finite 0) competencyScores)
                    (Finite (of_nat (length competencyScores)))
             else Finite 0);
          overallRating =
            number_add (number_times goalsProgress (number_of (7 / 10)))
              (number_times competencyAverage (number_of (3 / 10)))
      in \<lparr>goalsProgress = Math_round goalsProgress,
          competencyAverage = number_divide (Math_round (number_times competencyAverage (Finite 20))) (Finite 20),
          overallRating = Math_round overallRating,
          offline = True\<rparr>)"

definition calculateOfflinePerformanceSummary :: "string \<Rightarrow> data_handler \<Rightarrow> error + performance_summary" where
  "calculateOfflinePerformanceSummary empCode s =
     (case get_property (db_goals s) empCode of
        Inherited \<Rightarrow> Inl TypeError
      | Undefined \<Rightarrow>
          (case get_property (db_competencies s) empCode of
             Undefined \<Rightarrow> Inr (offline_summary [] [])
           | Own (CompetencyList competencies) \<Rightarrow> Inr (offline_summary [] competencies)
           | Own (EvaluationData evaluationData) \<Rightarrow> Inl TypeError
           | Inherited \<Rightarrow> Inl TypeError)
      | Own goals \<Rightarrow>
          (case get_property (db_competencies s) empCode of
             Undefined \<Rightarrow> Inr (offline_summary goals [])
           | Own (CompetencyList competencies) \<Rightarrow> Inr (offline_summary goals competencies)
           | Own (EvaluationData evaluationData) \<Rightarrow> Inl TypeError
           | Inherited \<Rightarrow> Inl TypeError))"

text \<open>
  \<open>getPerformanceSummary(empCode)\<close>: the \<open>catch\<close> returns what
  \<open>calculateOfflinePerformanceSummary\<close> returns; what that call throws leaves the method.
\<close>

definition getPerformanceSummary ::
  "(nat \<Rightarrow> performance_summary response option) \<Rightarrow> env \<Rightarrow> string \<Rightarrow> data_handler
     \<Rightarrow> (error + performance_summary) \<times> data_handler" where
  "getPerformanceSummary net env empCode s =
     (case makeRequest net env (endpoints_performance @ ''/summary/'' @ empCode) GET NoData 0 s of
        (Inr response, s1) \<Rightarrow> (Inr (response_data response), s1)
      | (Inl e, s1) \<Rightarrow> (calculateOfflinePerformanceSummary empCode s1, s1))"


subsection \<open>Replaying the sync queue\<close>

text \<open>
  The body of \<open>for (const item of this.syncQueue)\<close> from index \<open>i\<close> on. The array
  iterator reads the live array, so the bound is the length of the queue in the
  current state and \<open>item.retryCount++\<close> updates the element in place. The oracle
  \<open>net i\<close> answers the request of the \<open>i\<close>-th iteration. The loop is defined as a
  partial function: nothing in its text bounds the number of iterations.
\<close>

partial_function (option) processSyncQueue_loop ::
  "(nat \<Rightarrow> nat \<Rightarrow> 'r option) \<Rightarrow> env \<Rightarrow> nat \<Rightarrow> rat list \<Rightarrow> data_handler
     \<Rightarrow> (rat list \<times> data_handler) option" where
  "processSyncQueue_loop net env i processedItems s =
     (if i < length (syncQueue s) then
        (let item = syncQueue s ! i in
         case makeRequest (net i) env (endpoint item) (item_method item) (data item) 0 s of
           (Inr response, s1) \<Rightarrow>
             processSyncQueue_loop net env (i + 1) (processedItems @ [item_id item]) s1
         | (Inl e, s1) \<Rightarrow>
             (let item' = item\<lparr>retryCount := retryCount item + 1\<rparr>;
                  s2 = s1\<lparr>syncQueue := (syncQueue s1)[i := item']\<rparr>
              in if retryCount item' \<ge> maxRetries
                 then processSyncQueue_loop net env (i + 1) (processedItems @ [item_id item]) s2
                 else processSyncQueue_loop net env (i + 1) processedItems s2))
      else Some (processedItems, s))"

text \<open>
  \<open>processSyncQueue()\<close>: the guard, the loop, then the removal of every item whose id
  is in \<open>processedItems\<close>. The result carries \<open>processedItems\<close> (what the
  notification counts) beside the new state; \<open>None\<close> means the call does not return.
\<close>

definition processSyncQueue ::
  "(nat \<Rightarrow> nat \<Rightarrow> 'r option) \<Rightarrow> env \<Rightarrow> data_handler \<Rightarrow> (rat list \<times> data_handler) option" where
  "processSyncQueue net env s =
     (if \<not> isOnline s \<or> length (syncQueue s) = 0 then Some ([], s)
      else
        (case processSyncQueue_loop net env 0 [] s of
           None \<Rightarrow> None
         | Some (processedItems, s1) \<Rightarrow>
             Some (processedItems,
                   saveLocalData_syncQueue
                     (s1\<lparr>syncQueue := filter (\<lambda>item. item_id item \<notin> set processedItems) (syncQueue s1)\<rparr>))))"

text \<open>The listeners that \<open>setupEventListeners\<close> registers for \<open>online\<close> and \<open>offline\<close>.\<close>

definition on_online ::
  "(nat \<Rightarrow> nat \<Rightarrow> 'r option) \<Rightarrow> env \<Rightarrow> data_handler \<Rightarrow> (rat list \<times> data_handler) option" where
  "on_online net env s = processSyncQueue net env (s\<lparr>isOnline := True\<rparr>)"


subsection \<open>The methods of an instance, as one step function\<close>



section \<open>Overlapping calls of processSyncQueue\<close>

text \<open>
  \<open>processSyncQueue\<close> is an \<open>async\<close> method: it is suspended at
  \<open>await this.makeRequest(...)\<close>, and while it waits other listeners and calls run.
  This section models that at the level of the suspension points. The objects that
  calls share are kept in a store: the items (whose \<open>retryCount\<close> is updated in
  place) and the arrays (\<open>push\<close> extends an array in place, \<open>filter\<close> and \<open>[]\<close> make a
  new one, and a \<open>for...of\<close> keeps walking the array it started on).

  An activation is one call of \<open>processSyncQueue\<close> that has passed the guard: the array
  and position of its iterator, its \<open>processedItems\<close>, the \<open>retryCount\<close> argument of
  the request in flight, and whether the call has run to its end.
\<close>

record activation =
  iter_array :: nat
  iter_index :: nat
  processedItems :: "rat list"
  attempt :: nat
  returned :: bool

record runtime =
  rt_isOnline :: bool
  rt_items :: "syncItem list"
  rt_arrays :: "nat list list"
  rt_syncQueue :: nat
  rt_stored :: "syncItem list option"
  rt_fetched :: "(string \<times> http_method \<times> payload option) list"
  rt_clockReads :: nat
  rt_calls :: "activation list"

text \<open>
  What can happen next: a call of \<open>processSyncQueue\<close>; the request in flight of an
  activation settles (\<open>True\<close>: \<open>makeRequest\<close>'s \<open>try\<close> block completes, \<open>False\<close>: it
  throws); the \<open>online\<close> and \<open>offline\<close> events; a call of \<open>addToSyncQueue\<close>; a call of
  \<open>clearSyncQueue\<close>.
\<close>

datatype event =
    Invoke
  | Settle nat bool
  | Online
  | Offline
  | Enqueue string http_method payload
  | Clear

text \<open>The items of \<open>this.syncQueue\<close>, and \<open>saveLocalData('syncQueue', this.syncQueue)\<close>.\<close>

definition queue_items :: "runtime \<Rightarrow> syncItem list" where
  "queue_items r = map (\<lambda>a. rt_items r ! a) (rt_arrays r ! rt_syncQueue r)"

definition rt_persist :: "runtime \<Rightarrow> runtime" where
  "rt_persist r = r\<lparr>rt_stored := Some (queue_items r)\<rparr>"

text \<open>The \<open>fetch\<close> call that \<open>makeRequest\<close> makes for the item at an address.\<close>

definition rt_fetch :: "nat \<Rightarrow> runtime \<Rightarrow> runtime" where
  "rt_fetch a r =
     r\<lparr>rt_fetched := rt_fetched r
          @ [(gasUrl @ endpoint (rt_items r ! a), item_method (rt_items r ! a),
              if data (rt_items r ! a) \<noteq> NoData
                 \<and> (item_method (rt_items r ! a) = POST \<or> item_method (rt_items r ! a) = PUT
                     \<or> item_method (rt_items r ! a) = PATCH)
              then Some (data (rt_items r ! a)) else None)]\<rparr>"

definition rt_addToSyncQueue :: "env \<Rightarrow> string \<Rightarrow> http_method \<Rightarrow> payload \<Rightarrow> runtime \<Rightarrow> runtime" where
  "rt_addToSyncQueue env ep m d r =
     (let smp = env (rt_clockReads r);
          syncItem = \<lparr>item_id = round_double (of_int (dateNow_id smp) + mathRandom smp), endpoint = ep,
                      item_method = m, data = d, timestamp = dateNow_timestamp smp, retryCount = 0\<rparr>
      in rt_persist
           (r\<lparr>rt_items := rt_items r @ [syncItem],
              rt_arrays := (rt_arrays r)[rt_syncQueue r := rt_arrays r ! rt_syncQueue r @ [length (rt_items r)]],
              rt_clockReads := rt_clockReads r + 1\<rparr>))"

text \<open>
  A call of \<open>processSyncQueue\<close> up to its first suspension: the guard, then the
  iterator on \<open>this.syncQueue\<close> and the request for the first item.
\<close>

definition invoke :: "runtime \<Rightarrow> runtime" where
  "invoke r =
     (if \<not> rt_isOnline r \<or> length (rt_arrays r ! rt_syncQueue r) = 0 then r
      else rt_fetch (rt_arrays r ! rt_syncQueue r ! 0)
             (r\<lparr>rt_calls := rt_calls r
                   @ [\<lparr>iter_array = rt_syncQueue r, iter_index = 0, processedItems = [],
                        attempt = 0, returned = False\<rparr>]\<rparr>))"

text \<open>
  After the body of the loop for one item: the iterator moves on. If its array has a
  next element, the request for it starts; otherwise the call filters
  \<open>this.syncQueue\<close> (the array that member refers to now) into a new array, persists
  it and returns.
\<close>

definition advance :: "nat \<Rightarrow> activation \<Rightarrow> runtime \<Rightarrow> runtime" where
  "advance n a r =
     (if iter_index a + 1 < length (rt_arrays r ! iter_array a) then
        rt_fetch (rt_arrays r ! iter_array a ! (iter_index a + 1))
          (r\<lparr>rt_calls := (rt_calls r)[n := a\<lparr>iter_index := iter_index a + 1, attempt := 0\<rparr>]\<rparr>)
      else
        rt_persist
          (r\<lparr>rt_arrays := rt_arrays r
                 @ [filter (\<lambda>b. item_id (rt_items r ! b) \<notin> set (processedItems a))
                      (rt_arrays r ! rt_syncQueue r)],
             rt_syncQueue := length (rt_arrays r),
             rt_calls := (rt_calls r)[n := a\<lparr>returned := True\<rparr>]\<rparr>))"

text \<open>
  The request in flight of activation \<open>n\<close> settles. On success the id is pushed. On
  failure \<open>makeRequest\<close> retries while \<open>retryCount < maxRetries\<close> (the delay before the
  retry is not a step of its own); after the last failure it enqueues the request
  itself when offline, and the \<open>catch\<close> of \<open>processSyncQueue\<close> counts the failure on the
  item.
\<close>

definition settle :: "env \<Rightarrow> nat \<Rightarrow> bool \<Rightarrow> runtime \<Rightarrow> runtime" where
  "settle env n ok r =
     (if n \<ge> length (rt_calls r) \<or> returned (rt_calls r ! n) then r
      else
        (let a = rt_calls r ! n;
             b = rt_arrays r ! iter_array a ! iter_index a;
             item = rt_items r ! b
         in if ok then advance n (a\<lparr>processedItems := processedItems a @ [item_id item]\<rparr>) r
            else if attempt a < maxRetries then
              rt_fetch b (r\<lparr>rt_calls := (rt_calls r)[n := a\<lparr>attempt := attempt a + 1\<rparr>]\<rparr>)
            else
              (let r1 = (if \<not> rt_isOnline r
                            \<and> (item_method item = POST \<or> item_method item = PUT \<or> item_method item = PATCH)
                         then rt_addToSyncQueue env (endpoint item) (item_method item) (data item) r
                         else r);
                   item' = (rt_items r1 ! b)\<lparr>retryCount := retryCount (rt_items r1 ! b) + 1\<rparr>;
                   r2 = r1\<lparr>rt_items := (rt_items r1)[b := item']\<rparr>
               in advance n
                    (if retryCount item' \<ge> maxRetries
                     then a\<lparr>processedItems := processedItems a @ [item_id item]\<rparr> else a)
                    r2)))"

fun step :: "env \<Rightarrow> event \<Rightarrow> runtime \<Rightarrow> runtime" where
  "step env Invoke r = invoke r"
| "step env (Settle n ok) r = settle env n ok r"
| "step env Online r = invoke (r\<lparr>rt_isOnline := True\<rparr>)"
| "step env Offline r = r\<lparr>rt_isOnline := False\<rparr>"
| "step env (Enqueue ep m d) r = rt_addToSyncQueue env ep m d r"
| "step env Clear r =
     rt_persist (r\<lparr>rt_arrays := rt_arrays r @ [[]], rt_syncQueue := length (rt_arrays r)\<rparr>)"

fun run :: "env \<Rightarrow> event list \<Rightarrow> runtime \<Rightarrow> runtime" where
  "run env [] r = r"
| "run env (e # es) r = run env es (step env e r)"

text \<open>A runtime whose queue holds the given items and in which no call is in flight.\<close>

definition runtime_of :: "bool \<Rightarrow> syncItem list \<Rightarrow> runtime" where
  "runtime_of navigator_onLine q =
     \<lparr>rt_isOnline = navigator_onLine, rt_items = q, rt_arrays = [[0..<length q]], rt_syncQueue = 0,
      rt_stored = Some q, rt_fetched = [], rt_clockReads = 0, rt_calls = []\<rparr>"

section \<open>The calendar fallback of the time window (PMS_API)\<close>







section \<open>AuthManager\<close>

text \<open>
  The instance fields the login path uses. \<open>loginAttempts\<close> lives in memory (a new
  instance starts at 0); the lock marker lives in \<open>localStorage\<close>, shared with the
  \<open>DataHandler\<close> state.
\<close>

record auth_manager =
  currentUser :: "obj option"
  loginAttempts :: nat

definition maxLoginAttempts :: nat where
  "maxLoginAttempts = 5"

definition lockoutDuration :: int where
  "lockoutDuration = 15 * 60 * 1000"

text \<open>The readings of \<open>Date.now()\<close> during one call of \<open>login\<close>, by the place that reads.\<close>

record login_clock =
  at_isAccountLocked :: int
  at_lockAccount :: int
  at_session :: int
  at_logActivity :: int

definition isAccountLocked :: "int \<Rightarrow> data_handler \<Rightarrow> bool" where
  "isAccountLocked now s =
     (case pms_account_lock (localStorage s) of
        None \<Rightarrow> False
      | Some lock \<Rightarrow> now - lock_timestamp lock < lockoutDuration)"

definition lockAccount :: "int \<Rightarrow> auth_manager \<times> data_handler \<Rightarrow> auth_manager \<times> data_handler" where
  "lockAccount now as =
     (case as of (a, s) \<Rightarrow>
        (a, s\<lparr>localStorage := (localStorage s)
                 \<lparr>pms_account_lock := Some \<lparr>lock_timestamp = now, lock_attempts = loginAttempts a\<rparr>\<rparr>\<rparr>))"

definition resetLoginAttempts :: "auth_manager \<times> data_handler \<Rightarrow> auth_manager \<times> data_handler" where
  "resetLoginAttempts as =
     (case as of (a, s) \<Rightarrow>
        (a\<lparr>loginAttempts := 0\<rparr>,
         s\<lparr>localStorage := (localStorage s)\<lparr>pms_account_lock := None\<rparr>\<rparr>))"

text \<open>
  Strings are lists of 8-bit characters. Of the characters that \<open>String.prototype.trim\<close>
  strips, these lie in that range: tab, line feed, vertical tab, form feed, carriage
  return, space and the no-break space.
\<close>

definition is_space :: "char \<Rightarrow> bool" where
  "is_space c = (of_char c \<in> {9, 10, 11, 12, 13, 32, 160 :: nat})"

definition trim :: "string \<Rightarrow> string" where
  "trim cs = rev (dropWhile is_space (rev (dropWhile is_space cs)))"

definition is_alnum :: "char \<Rightarrow> bool" where
  "is_alnum c =
     (let n = (of_char c :: nat)
      in (97 \<le> n \<and> n \<le> 122) \<or> (65 \<le> n \<and> n \<le> 90) \<or> (48 \<le> n \<and> n \<le> 57))"

text \<open>
  \<open>validateEmployeeCode\<close>: a non-empty string whose trimmed form has 4 to 10
  characters, all of them letters or digits.
\<close>

definition validateEmployeeCode :: "string \<Rightarrow> bool" where
  "validateEmployeeCode empCode =
     (if empCode = [] then False
      else
        (let empCode' = trim empCode
         in if length empCode' < 4 \<or> length empCode' > 10 then False
            else empCode' \<noteq> [] \<and> list_all is_alnum empCode'))"

definition emp_code_or_unknown :: "obj option \<Rightarrow> string" where
  "emp_code_or_unknown u =
     (case u of
        None \<Rightarrow> ''unknown''
      | Some v \<Rightarrow> (case v ''emp_code'' of None \<Rightarrow> ''unknown'' | Some c \<Rightarrow> if c = [] then ''unknown'' else c))"

text \<open>\<open>logActivity\<close>: append an entry and keep the last 100.\<close>

definition logActivity :: "int \<Rightarrow> string \<Rightarrow> auth_manager \<times> data_handler \<Rightarrow> auth_manager \<times> data_handler" where
  "logActivity now action as =
     (case as of (a, s) \<Rightarrow>
        (let logs = pms_activity_logs (localStorage s)
                      @ [\<lparr>log_timestamp = now, log_action = action,
                           log_empCode = emp_code_or_unknown (currentUser a)\<rparr>];
             logs' = (if length logs > 100 then drop (length logs - 100) logs else logs)
         in (a, s\<lparr>localStorage := (localStorage s)\<lparr>pms_activity_logs := logs'\<rparr>\<rparr>)))"

definition handleLoginSuccess ::
  "login_clock \<Rightarrow> obj \<Rightarrow> bool \<Rightarrow> auth_manager \<times> data_handler \<Rightarrow> auth_manager \<times> data_handler" where
  "handleLoginSuccess clk u off as =
     (case as of (a, s) \<Rightarrow>
        logActivity (at_logActivity clk) ''login''
          (a\<lparr>currentUser := Some u\<rparr>,
           s\<lparr>localStorage := (localStorage s)
                \<lparr>pms_current_user := Some u,
                 pms_session := Some \<lparr>session_timestamp = at_session clk,
                                      session_empCode = u ''emp_code'',
                                      session_offline = off\<rparr>\<rparr>\<rparr>))"

text \<open>
  \<open>handleLoginFailure\<close>: count the failure; when no attempt remains, write the lock
  marker with the current time.
\<close>

definition handleLoginFailure ::
  "login_clock \<Rightarrow> auth_manager \<times> data_handler \<Rightarrow> auth_manager \<times> data_handler" where
  "handleLoginFailure clk as =
     (case as of (a, s) \<Rightarrow>
        (let a1 = a\<lparr>loginAttempts := loginAttempts a + 1\<rparr>;
             remainingAttempts = int maxLoginAttempts - int (loginAttempts a1)
         in logActivity (at_logActivity clk) ''login_failed''
              (if remainingAttempts \<le> 0 then lockAccount (at_lockAccount clk) (a1, s) else (a1, s))))"

text \<open>
  \<open>login(employeeCode)\<close>. Everything from the lock check on is inside the \<open>try\<close>
  block, so the lockout error and the format error pass through
  \<open>handleLoginFailure\<close> like a failed authentication.
\<close>

definition login ::
  "(nat \<Rightarrow> auth_response option) \<Rightarrow> env \<Rightarrow> login_clock \<Rightarrow> string \<Rightarrow> auth_manager \<times> data_handler
     \<Rightarrow> (error + obj) \<times> auth_manager \<times> data_handler" where
  "login net env clk employeeCode as =
     (case as of (a, s) \<Rightarrow>
        (let attempt =
           (if isAccountLocked (at_isAccountLocked clk) s then (Inl AccountLocked, a, s)
            else if \<not> validateEmployeeCode employeeCode then (Inl InvalidEmployeeCode, a, s)
            else
              (case authenticateUser net env employeeCode s of
                 (Inr (response, off), s1) \<Rightarrow>
                   if success response then
                     (case resetLoginAttempts (handleLoginSuccess clk (user response) off (a, s1)) of
                        (a2, s2) \<Rightarrow> (Inr (user response), a2, s2))
                   else (Inl (AuthenticationFailed (message response)), a, s1)
               | (Inl e, s1) \<Rightarrow> (Inl e, a, s1)))
         in case attempt of
              (Inr u, a', s') \<Rightarrow> (Inr u, a', s')
            | (Inl e, a', s') \<Rightarrow>
                (case handleLoginFailure clk (a', s') of (a'', s'') \<Rightarrow> (Inl e, a'', s''))))"

text \<open>A series of \<open>login\<close> calls, one after the other; the results come in order.\<close>

fun logins ::
  "((nat \<Rightarrow> auth_response option) \<times> env \<times> login_clock \<times> string) list \<Rightarrow> auth_manager \<times> data_handler
     \<Rightarrow> (error + obj) list \<times> auth_manager \<times> data_handler" where
  "logins [] as = ([], as)"
| "logins ((net, env, clk, employeeCode) # rest) as =
     (case login net env clk employeeCode as of
        (r, as1) \<Rightarrow> (case logins rest as1 of (rs, as2) \<Rightarrow> (r # rs, as2)))"

text \<open>
  \<open>clearSession\<close>, and \<open>checkExistingSession\<close>, which the constructor runs through
  \<open>init\<close>: a stored user with a stored session younger than \<open>sessionTimeout\<close> (8 hours)
  becomes the current user; otherwise the session is cleared.
\<close>

definition sessionTimeout :: int where
  "sessionTimeout = 8 * 60 * 60 * 1000"

definition clearSession :: "auth_manager \<times> data_handler \<Rightarrow> auth_manager \<times> data_handler" where
  "clearSession as =
     (case as of (a, s) \<Rightarrow>
        (a\<lparr>currentUser := None\<rparr>,
         s\<lparr>localStorage := (localStorage s)\<lparr>pms_current_user := None, pms_session := None\<rparr>\<rparr>))"

definition checkExistingSession :: "int \<Rightarrow> auth_manager \<times> data_handler \<Rightarrow> auth_manager \<times> data_handler" where
  "checkExistingSession now as =
     (case as of (a, s) \<Rightarrow>
        (case (pms_current_user (localStorage s), pms_session (localStorage s)) of
           (Some userData, Some session) \<Rightarrow>
             if now - session_timestamp session < sessionTimeout
             then (a\<lparr>currentUser := Some userData\<rparr>, s)
             else clearSession (a, s)
         | _ \<Rightarrow> clearSession (a, s)))"


section \<open>Construction and sample inputs\<close>

text \<open>
  The constructor: \<open>this.isOnline = navigator.onLine\<close>, \<open>this.syncQueue = []\<close>, and
  \<open>initializeDatabase\<close> fills \<open>this.db\<close> from \<open>localStorage\<close>. The stored queue is read
  into \<open>this.db.syncQueue\<close>, a member no method uses afterwards, so the queue of a new
  instance is empty whatever is stored.
\<close>

definition new_DataHandler :: "bool \<Rightarrow> local_storage \<Rightarrow> data_handler" where
  "new_DataHandler navigator_onLine ls =
     \<lparr>isOnline = navigator_onLine,
      syncQueue = [],
      db_employees = (case pms_employees ls of Some v \<Rightarrow> v | None \<Rightarrow> Map.empty),
      db_goals = (case pms_goals ls of Some v \<Rightarrow> v | None \<Rightarrow> Map.empty),
      db_competencies = (case pms_competencies ls of Some v \<Rightarrow> v | None \<Rightarrow> Map.empty),
      db_competencyMaster = (case pms_competencyMaster ls of Some v \<Rightarrow> v | None \<Rightarrow> []),
      db_systemConfig =
        (case pms_systemConfig ls of Some v \<Rightarrow> v | None \<Rightarrow> Map.empty),
      localStorage = ls,
      fetched = [],
      clockReads = 0\<rparr>"

text \<open>
  The constructor of \<open>AuthManager\<close>: no user, \<open>loginAttempts = 0\<close>, then
  \<open>checkExistingSession\<close> at the time \<open>now\<close>. Both scripts end by creating their
  instance, so loading the page makes a new \<open>DataHandler\<close> and a new \<open>AuthManager\<close>
  over the \<open>localStorage\<close> that the browser kept.
\<close>

definition new_AuthManager :: "int \<Rightarrow> data_handler \<Rightarrow> auth_manager \<times> data_handler" where
  "new_AuthManager now s = checkExistingSession now (\<lparr>currentUser = None, loginAttempts = 0\<rparr>, s)"

definition page_load :: "bool \<Rightarrow> int \<Rightarrow> local_storage \<Rightarrow> auth_manager \<times> data_handler" where
  "page_load navigator_onLine now ls = new_AuthManager now (new_DataHandler navigator_onLine ls)"

definition empty_storage :: local_storage where
  "empty_storage =
     \<lparr>pms_auth_token = None, pms_currentUser = None, pms_employees = None, pms_goals = None,
      pms_competencies = None, pms_competencyMaster = None, pms_systemConfig = None,
      pms_syncQueue = None, pms_current_user = None, pms_session = None,
      pms_account_lock = None, pms_activity_logs = []\<rparr>"

text \<open>Inputs for the closed examples: a clock that advances, a goal, requests that all fail.\<close>

definition sample_env :: env where
  "sample_env n =
     \<lparr>dateNow_id = 1700000000000 + int n, mathRandom = 1 / 4, dateNow_timestamp = 1700000000000 + int n\<rparr>"

definition sample_goal :: goal where
  "sample_goal = \<lparr>goal_id = ''g1'', kra_title = ''Revenue'', weightage = 40, achieved_ratio = Some 100\<rparr>"

definition unreachable :: "nat \<Rightarrow> 'r option" where
  "unreachable k = None"

definition reachable :: "nat \<Rightarrow> unit option" where
  "reachable k = Some ()"

text \<open>An \<open>evaluationData\<close> object: one competency, by id, with the score of a behaviour.\<close>

definition sample_evaluation :: "string \<rightharpoonup> obj" where
  "sample_evaluation = [''C1'' \<mapsto> [''behaviour_1_score'' \<mapsto> ''4'']]"

text \<open>Inputs for the closed examples of the replay.\<close>

definition sample_queue :: "syncItem list" where
  "sample_queue =
     [\<lparr>item_id = 1, endpoint = ''/goals/E100'', item_method = POST, data = GoalsData [sample_goal],
       timestamp = 10, retryCount = 0\<rparr>,
      \<lparr>item_id = 2, endpoint = ''/competencies/E100'', item_method = POST, data = CompetencyData (CompetencyList []),
       timestamp = 20, retryCount = 0\<rparr>,
      \<lparr>item_id = 3, endpoint = ''/system/settings'', item_method = POST,
       data = ConfigData [''theme'' \<mapsto> TextValue ''dark''], timestamp = 30, retryCount = 2\<rparr>]"

definition sample_replies :: "nat \<Rightarrow> nat \<Rightarrow> unit option" where
  "sample_replies j k = (if j = 0 \<and> k = 1 then Some () else None)"

definition sample_title :: goalData where
  "sample_title = \<lparr>new_id = None, new_kra_title = Some ''Profit'', new_weightage = None,
                    new_achieved_ratio = None\<rparr>"

definition all_reachable :: "nat \<Rightarrow> nat \<Rightarrow> unit option" where
  "all_reachable j = reachable"

definition sample_writes :: "((nat \<Rightarrow> unit option) \<times> goal list) list" where
  "sample_writes =
     [(unreachable, [sample_goal]), (unreachable, [sample_goal\<lparr>kra_title := ''Profit''\<rparr>])]"

text \<open>Schedules and queues for the closed examples of overlapping calls.\<close>

definition first_pass_drops :: "event list" where
  "first_pass_drops =
     [Online, Online, Settle 0 True, Settle 0 False, Settle 0 False, Settle 0 False, Settle 0 False]"

definition second_pass_retries :: "event list" where
  "second_pass_retries = [Settle 1 True, Settle 1 False, Settle 1 False, Settle 1 False, Settle 1 False]"

definition offline_during_pass :: "event list" where
  "offline_during_pass = [Online, Offline, Settle 0 False, Settle 0 False, Settle 0 False, Settle 0 False]"

definition sample_pair :: "syncItem list" where
  "sample_pair = [sample_queue ! 0, sample_queue ! 2]"

definition sample_twins :: "syncItem list" where
  "sample_twins = [sample_queue ! 0, (sample_queue ! 1)\<lparr>item_id := 1\<rparr>]"

text \<open>Inputs for the closed examples of the login lockout.\<close>

definition sample_clock :: "int \<Rightarrow> login_clock" where
  "sample_clock t = \<lparr>at_isAccountLocked = t, at_lockAccount = t + 1, at_session = t + 1, at_logActivity = t + 2\<rparr>"

definition sample_login_ok :: "nat \<Rightarrow> auth_response option" where
  "sample_login_ok k = Some \<lparr>success = True, token = ''tok'', user = [''emp_code'' \<mapsto> ''E1001''], message = None\<rparr>"

definition five_failed_attempts ::
  "((nat \<Rightarrow> auth_response option) \<times> env \<times> login_clock \<times> string) list" where
  "five_failed_attempts =
     [(unreachable, sample_env, sample_clock 1000, ''E1001''),
      (unreachable, sample_env, sample_clock 2000, ''E1001''),
      (unreachable, sample_env, sample_clock 3000, ''no''),
      (unreachable, sample_env, sample_clock 4000, ''E1001''),
      (unreachable, sample_env, sample_clock 5000, ''E1001'')]"

text \<open>The page loaded again after the first four of the five attempts.\<close>

definition after_reload :: "auth_manager \<times> data_handler" where
  "after_reload =
     page_load True 4500
       (localStorage (snd (snd (logins (take 4 five_failed_attempts) (page_load True 0 empty_storage)))))"

definition locked_attempts ::
  "((nat \<Rightarrow> auth_response option) \<times> env \<times> login_clock \<times> string) list" where
  "locked_attempts =
     [(sample_login_ok, sample_env, sample_clock 6000, ''E1001''),
      (unreachable, sample_env, sample_clock 900000, ''E1001'')]"

section \<open>Closed forms used in the statements\<close>

text \<open>
  The answer of \<open>makeRequest\<close> started with a given \<open>retryCount\<close> (the first attempt
  that succeeds, if one does within \<open>maxRetries\<close> retries) and the number of
  \<open>fetch\<close> calls it makes; both follow the recursion of \<open>makeRequest\<close>.
\<close>

function request_outcome :: "(nat \<Rightarrow> 'r option) \<Rightarrow> nat \<Rightarrow> 'r option" where
  "request_outcome net rc =
     (case net rc of
        Some result \<Rightarrow> Some result
      | None \<Rightarrow> if rc < maxRetries then request_outcome net (rc + 1) else None)"
  by pat_completeness auto
termination
  by (relation "measure (\<lambda>(net, rc). maxRetries - rc)") auto

function request_attempts :: "(nat \<Rightarrow> 'r option) \<Rightarrow> nat \<Rightarrow> nat" where
  "request_attempts net rc =
     (case net rc of
        Some result \<Rightarrow> 1
      | None \<Rightarrow> if rc < maxRetries then 1 + request_attempts net (rc + 1) else 1)"
  by pat_completeness auto
termination
  by (relation "measure (\<lambda>(net, rc). maxRetries - rc)") auto

definition is_mutating :: "http_method \<Rightarrow> bool" where
  "is_mutating m = (m = POST \<or> m = PUT \<or> m = PATCH)"

text \<open>The entry of \<open>fetched\<close> for a request, and the item \<open>addToSyncQueue\<close> builds.\<close>

definition request_of :: "string \<Rightarrow> http_method \<Rightarrow> payload \<Rightarrow> string \<times> http_method \<times> payload option" where
  "request_of ep m d =
     (gasUrl @ ep, m, if d \<noteq> NoData \<and> (m = POST \<or> m = PUT \<or> m = PATCH) then Some d else None)"

definition queued_item :: "samples \<Rightarrow> string \<Rightarrow> http_method \<Rightarrow> payload \<Rightarrow> syncItem" where
  "queued_item smp ep m d =
     \<lparr>item_id = round_double (of_int (dateNow_id smp) + mathRandom smp), endpoint = ep, item_method = m,
      data = d, timestamp = dateNow_timestamp smp, retryCount = 0\<rparr>"

text \<open>
  The outcome of the loop of \<open>processSyncQueue\<close> over the items \<open>ts\<close>, the first of
  which is handled by iteration \<open>i\<close>: the items as the loop leaves them (a failed
  replay adds one to \<open>retryCount\<close>), the ids pushed to \<open>processedItems\<close>, the
  \<open>fetch\<close> calls made, and the items that stay in the queue.
\<close>

fun replay_items :: "(nat \<Rightarrow> nat \<Rightarrow> 'r option) \<Rightarrow> nat \<Rightarrow> syncItem list \<Rightarrow> syncItem list" where
  "replay_items net i [] = []"
| "replay_items net i (t # ts) =
     (if request_outcome (net i) 0 = None then t\<lparr>retryCount := retryCount t + 1\<rparr> else t)
       # replay_items net (i + 1) ts"

fun replay_processed :: "(nat \<Rightarrow> nat \<Rightarrow> 'r option) \<Rightarrow> nat \<Rightarrow> syncItem list \<Rightarrow> rat list" where
  "replay_processed net i [] = []"
| "replay_processed net i (t # ts) =
     (if request_outcome (net i) 0 \<noteq> None \<or> retryCount t + 1 \<ge> maxRetries then [item_id t] else [])
       @ replay_processed net (i + 1) ts"

fun replay_fetched ::
  "(nat \<Rightarrow> nat \<Rightarrow> 'r option) \<Rightarrow> nat \<Rightarrow> syncItem list \<Rightarrow> (string \<times> http_method \<times> payload option) list" where
  "replay_fetched net i [] = []"
| "replay_fetched net i (t # ts) =
     replicate (request_attempts (net i) 0) (request_of (endpoint t) (item_method t) (data t))
       @ replay_fetched net (i + 1) ts"

fun survivors :: "(nat \<Rightarrow> nat \<Rightarrow> 'r option) \<Rightarrow> nat \<Rightarrow> syncItem list \<Rightarrow> syncItem list" where
  "survivors net i [] = []"
| "survivors net i (t # ts) =
     (if request_outcome (net i) 0 = None \<and> retryCount t + 1 < maxRetries
      then [t\<lparr>retryCount := retryCount t + 1\<rparr>] else [])
       @ survivors net (i + 1) ts"


text \<open>A series of \<open>saveGoals\<close> calls for one employee, each with the oracle of its request.\<close>

fun saveGoals_each ::
  "env \<Rightarrow> string \<Rightarrow> ((nat \<Rightarrow> unit option) \<times> goal list) list \<Rightarrow> data_handler \<Rightarrow> data_handler" where
  "saveGoals_each env empCode [] s = s"
| "saveGoals_each env empCode ((net, goalsData) # writes) s =
     saveGoals_each env empCode writes (snd (saveGoals net env empCode goalsData s))"

definition request_of_item :: "syncItem \<Rightarrow> string \<times> http_method \<times> payload option" where
  "request_of_item t = request_of (endpoint t) (item_method t) (data t)"

section \<open>Properties of the request primitive\<close>

declare makeRequest.simps [simp del] request_outcome.simps [simp del] request_attempts.simps [simp del]

lemma makeRequest_fst:
  "fst (makeRequest net env ep m d rc s) =
     (case request_outcome net rc of Some r \<Rightarrow> Inr r | None \<Rightarrow> Inl RequestFailed)"
proof (induction net env ep m d rc s rule: makeRequest.induct)
  case (1 net env ep m d rc s)
  show ?case
  proof (cases "net rc")
    case None
    show ?thesis
    proof (cases "rc < maxRetries")
      case True
      with None 1 [OF refl refl refl None True] show ?thesis
        by (subst makeRequest.simps, subst request_outcome.simps) (simp add: Let_def)
    next
      case False
      with None show ?thesis
        by (subst makeRequest.simps, subst request_outcome.simps) (simp add: Let_def)
    qed
  next
    case (Some r)
    then show ?thesis
      by (subst makeRequest.simps, subst request_outcome.simps) (simp add: Let_def)
  qed
qed

lemma makeRequest_snd:
  "snd (makeRequest net env ep m d rc s) =
     (let s1 = s\<lparr>fetched := fetched s @ replicate (request_attempts net rc) (request_of ep m d)\<rparr>
      in if request_outcome net rc = None \<and> \<not> isOnline s \<and> is_mutating m
         then addToSyncQueue env ep m d s1 else s1)"
proof (induction net env ep m d rc s rule: makeRequest.induct)
  case (1 net env ep m d rc s)
  show ?case
  proof (cases "net rc")
    case None
    show ?thesis
    proof (cases "rc < maxRetries")
      case True
      with None 1 [OF refl refl refl None True] show ?thesis
        by (subst makeRequest.simps, subst request_outcome.simps, subst request_attempts.simps)
           (simp add: Let_def request_of_def)
    next
      case False
      with None show ?thesis
        by (subst makeRequest.simps, subst request_outcome.simps, subst request_attempts.simps)
           (simp add: Let_def request_of_def is_mutating_def)
    qed
  next
    case (Some r)
    then show ?thesis
      by (subst makeRequest.simps, subst request_outcome.simps, subst request_attempts.simps)
         (simp add: Let_def request_of_def)
  qed
qed

lemma request_outcome_None_iff:
  "rc \<le> maxRetries \<Longrightarrow>
     request_outcome net rc = None \<longleftrightarrow> (\<forall>k. rc \<le> k \<and> k \<le> maxRetries \<longrightarrow> net k = None)"
proof (induction net rc rule: request_outcome.induct)
  case (1 net rc)
  show ?case
  proof (cases "net rc")
    case None
    show ?thesis
    proof (cases "rc < maxRetries")
      case True
      have "(\<forall>k. rc \<le> k \<and> k \<le> maxRetries \<longrightarrow> net k = None)
            \<longleftrightarrow> (\<forall>k. rc + 1 \<le> k \<and> k \<le> maxRetries \<longrightarrow> net k = None)"
        using None by (metis Suc_eq_plus1 Suc_leI le_neq_implies_less nat_le_linear not_less_eq_eq)
      with True None 1(1) [OF None True] show ?thesis
        by (subst request_outcome.simps) simp
    next
      case False
      with 1(2) have "rc = maxRetries" by simp
      with None show ?thesis
        by (subst request_outcome.simps) (auto simp: le_antisym)
    qed
  next
    case (Some r)
    with 1(2) show ?thesis
      by (subst request_outcome.simps) auto
  qed
qed

lemma all_fail_outcome:
  "(\<forall>k\<le>maxRetries. net k = None) \<longleftrightarrow> request_outcome net 0 = None"
  using request_outcome_None_iff [of 0 net] by simp

lemma addToSyncQueue_fields [simp]:
  "syncQueue (addToSyncQueue env ep m d s) = syncQueue s @ [queued_item (env (clockReads s)) ep m d]"
  "isOnline (addToSyncQueue env ep m d s) = isOnline s"
  "db_employees (addToSyncQueue env ep m d s) = db_employees s"
  "db_goals (addToSyncQueue env ep m d s) = db_goals s"
  "db_competencies (addToSyncQueue env ep m d s) = db_competencies s"
  "db_competencyMaster (addToSyncQueue env ep m d s) = db_competencyMaster s"
  "db_systemConfig (addToSyncQueue env ep m d s) = db_systemConfig s"
  "fetched (addToSyncQueue env ep m d s) = fetched s"
  "clockReads (addToSyncQueue env ep m d s) = clockReads s + 1"
  "localStorage (addToSyncQueue env ep m d s) =
     (localStorage s)\<lparr>pms_syncQueue := Some (syncQueue s @ [queued_item (env (clockReads s)) ep m d])\<rparr>"
  by (simp_all add: addToSyncQueue_def saveLocalData_syncQueue_def queued_item_def Let_def)

lemma unreachable_outcome [simp]: "request_outcome unreachable rc = None"
proof (induction "unreachable :: nat \<Rightarrow> 'a option" rc rule: request_outcome.induct)
  case (1 rc)
  show ?case
  proof (cases "rc < maxRetries")
    case True
    with 1 [OF _ True] show ?thesis
      by (subst request_outcome.simps) (simp add: unreachable_def)
  next
    case False
    then show ?thesis
      by (subst request_outcome.simps) (simp add: unreachable_def)
  qed
qed

lemmas mr_unfold = prod.case_eq_if sum.case_eq_if makeRequest_fst makeRequest_snd Let_def is_mutating_def

text \<open>The id of the first item enqueued in the sample environment is a double as it is.\<close>

lemma sample_id [simp]: "round_double (6800000000001 / 4) = 6800000000001 / 4"
  by code_simp

text \<open>
  C5 (as the code has it). \<open>makeRequest\<close> never changes the entity cache
  (\<open>this.db\<close>) nor \<open>isOnline\<close>, and it reports an error exactly when every attempt
  fails. It leaves the sync queue alone except in one case: when every attempt fails,
  \<open>isOnline\<close> is false and the method is POST, PUT or PATCH, it appends one item for
  the request and persists the queue.
\<close>

theorem makeRequest_effects:
  "db_employees (snd (makeRequest net env ep m d 0 s)) = db_employees s
   \<and> db_goals (snd (makeRequest net env ep m d 0 s)) = db_goals s
   \<and> db_competencies (snd (makeRequest net env ep m d 0 s)) = db_competencies s
   \<and> db_competencyMaster (snd (makeRequest net env ep m d 0 s)) = db_competencyMaster s
   \<and> db_systemConfig (snd (makeRequest net env ep m d 0 s)) = db_systemConfig s
   \<and> isOnline (snd (makeRequest net env ep m d 0 s)) = isOnline s
   \<and> (isl (fst (makeRequest net env ep m d 0 s)) \<longleftrightarrow> (\<forall>k\<le>maxRetries. net k = None))
   \<and> syncQueue (snd (makeRequest net env ep m d 0 s)) =
       (if (\<forall>k\<le>maxRetries. net k = None) \<and> \<not> isOnline s \<and> (m = POST \<or> m = PUT \<or> m = PATCH)
        then syncQueue s @ [queued_item (env (clockReads s)) ep m d]
        else syncQueue s)
   \<and> localStorage (snd (makeRequest net env ep m d 0 s)) =
       (if (\<forall>k\<le>maxRetries. net k = None) \<and> \<not> isOnline s \<and> (m = POST \<or> m = PUT \<or> m = PATCH)
        then (localStorage s)\<lparr>pms_syncQueue := Some (syncQueue s @ [queued_item (env (clockReads s)) ep m d])\<rparr>
        else localStorage s)"
  by (simp add: makeRequest_snd makeRequest_fst all_fail_outcome Let_def is_mutating_def
           split: option.split)

text \<open>The theorem at a GET request that fails on every attempt while offline.\<close>

theorem makeRequest_effects_witness:
  "isl (fst (makeRequest (unreachable :: nat \<Rightarrow> unit option) sample_env ''/goals/E100'' GET NoData 0
                 (new_DataHandler False empty_storage)))
   \<and> syncQueue (snd (makeRequest (unreachable :: nat \<Rightarrow> unit option) sample_env ''/goals/E100'' GET NoData 0
                 (new_DataHandler False empty_storage))) = []"
  using makeRequest_effects [of "unreachable :: nat \<Rightarrow> unit option" sample_env "''/goals/E100''" GET NoData
          "new_DataHandler False empty_storage"]
  by (simp add: unreachable_def new_DataHandler_def)

text \<open>
  C5 as stated fails: offline, a POST that fails on every attempt leaves one item in a
  queue that was empty, and the persisted queue changes with it.
\<close>

theorem makeRequest_enqueues_counterexample:
  "syncQueue (new_DataHandler False empty_storage) = []
   \<and> syncQueue (snd (makeRequest (unreachable :: nat \<Rightarrow> unit option) sample_env ''/goals/E100'' POST
                 (GoalsData [sample_goal]) 0 (new_DataHandler False empty_storage)))
       = [\<lparr>item_id = 1700000000000 + 1 / 4, endpoint = ''/goals/E100'', item_method = POST,
            data = GoalsData [sample_goal], timestamp = 1700000000000, retryCount = 0\<rparr>]
   \<and> pms_syncQueue (localStorage (snd (makeRequest (unreachable :: nat \<Rightarrow> unit option) sample_env ''/goals/E100'' POST
                 (GoalsData [sample_goal]) 0 (new_DataHandler False empty_storage))))
       \<noteq> pms_syncQueue (localStorage (new_DataHandler False empty_storage))"
  by (simp add: makeRequest_snd Let_def is_mutating_def new_DataHandler_def sample_env_def
        queued_item_def empty_storage_def)


section \<open>Properties of saving goals\<close>

lemma saveGoals_failed:
  assumes "\<forall>k\<le>maxRetries. net k = None"
  shows "fst (saveGoals net env empCode goalsData s) = Inl RequestFailed"
    and "db_goals (snd (saveGoals net env empCode goalsData s)) = (db_goals s)(empCode \<mapsto> goalsData)"
    and "syncQueue (snd (saveGoals net env empCode goalsData s)) =
           (if isOnline s
            then syncQueue s @ [queued_item (env (clockReads s)) (endpoints_goals @ ''/'' @ empCode) POST (GoalsData goalsData)]
            else syncQueue s @ [queued_item (env (clockReads s)) (endpoints_goals @ ''/'' @ empCode) POST (GoalsData goalsData),
                                queued_item (env (clockReads s + 1)) (endpoints_goals @ ''/'' @ empCode) POST (GoalsData goalsData)])"
    and "pms_syncQueue (localStorage (snd (saveGoals net env empCode goalsData s)))
           = Some (syncQueue (snd (saveGoals net env empCode goalsData s)))"
    and "pms_goals (localStorage (snd (saveGoals net env empCode goalsData s)))
           = Some ((db_goals s)(empCode \<mapsto> goalsData))"
proof -
  from assms have out: "request_outcome net 0 = None"
    by (simp add: all_fail_outcome)
  show "fst (saveGoals net env empCode goalsData s) = Inl RequestFailed"
    by (simp add: saveGoals_def out mr_unfold)
  show "db_goals (snd (saveGoals net env empCode goalsData s)) = (db_goals s)(empCode \<mapsto> goalsData)"
    by (simp add: saveGoals_def out mr_unfold saveLocalData_goals_def)
  show "syncQueue (snd (saveGoals net env empCode goalsData s)) =
           (if isOnline s
            then syncQueue s @ [queued_item (env (clockReads s)) (endpoints_goals @ ''/'' @ empCode) POST (GoalsData goalsData)]
            else syncQueue s @ [queued_item (env (clockReads s)) (endpoints_goals @ ''/'' @ empCode) POST (GoalsData goalsData),
                                queued_item (env (clockReads s + 1)) (endpoints_goals @ ''/'' @ empCode) POST (GoalsData goalsData)])"
    by (simp add: saveGoals_def out mr_unfold saveLocalData_goals_def)
  show "pms_syncQueue (localStorage (snd (saveGoals net env empCode goalsData s)))
           = Some (syncQueue (snd (saveGoals net env empCode goalsData s)))"
    by (simp add: saveGoals_def out mr_unfold saveLocalData_goals_def)
  show "pms_goals (localStorage (snd (saveGoals net env empCode goalsData s)))
           = Some ((db_goals s)(empCode \<mapsto> goalsData))"
    by (simp add: saveGoals_def out mr_unfold saveLocalData_goals_def)
qed




lemma saveGoals_succeeded:
  assumes "fst (saveGoals net env empCode goalsData s) = Inr r"
  shows "db_goals (snd (saveGoals net env empCode goalsData s)) = (db_goals s)(empCode \<mapsto> goalsData)"
    and "syncQueue (snd (saveGoals net env empCode goalsData s)) = syncQueue s"
    and "request_outcome net 0 = Some r"
proof -
  from assms show out: "request_outcome net 0 = Some r"
    by (simp add: saveGoals_def mr_unfold split: option.splits)
  show "db_goals (snd (saveGoals net env empCode goalsData s)) = (db_goals s)(empCode \<mapsto> goalsData)"
    by (simp add: saveGoals_def out mr_unfold saveLocalData_goals_def)
  show "syncQueue (snd (saveGoals net env empCode goalsData s)) = syncQueue s"
    by (simp add: saveGoals_def out mr_unfold saveLocalData_goals_def)
qed

lemma getGoals_failed:
  assumes "\<forall>k\<le>maxRetries. net k = None"
  shows "fst (getGoals net env empCode s) =
           (case db_goals s empCode of Some cached \<Rightarrow> Inr cached | None \<Rightarrow> Inl RequestFailed)"
proof -
  from assms have out: "request_outcome net 0 = None"
    by (simp add: all_fail_outcome)
  show ?thesis
    by (simp add: getGoals_def out mr_unfold split: option.split)
qed

lemma reachable_outcome [simp]: "request_outcome reachable rc = Some ()"
  by (subst request_outcome.simps) (simp add: reachable_def)

text \<open>
  C9. After a \<open>saveGoals\<close> call that returned a response, a \<open>getGoals\<close> call for the
  same employee whose request fails on every attempt returns the goal set that was
  saved. (The cached value is an array, which \<open>if (cached)\<close> always accepts.)
\<close>

theorem goals_read_your_writes:
  assumes "fst (saveGoals net1 env1 empCode goalsData s) = Inr r"
      and "\<forall>k\<le>maxRetries. net2 k = None"
  shows "fst (getGoals net2 env2 empCode (snd (saveGoals net1 env1 empCode goalsData s))) = Inr goalsData"
  using saveGoals_succeeded(1) [OF assms(1)] getGoals_failed [OF assms(2)]
  by simp

text \<open>The theorem at a save that is answered at once and a read that is never answered.\<close>

theorem goals_read_your_writes_witness:
  "fst (saveGoals reachable sample_env ''E100'' [sample_goal] (new_DataHandler True empty_storage)) = Inr ()
   \<and> fst (getGoals unreachable sample_env ''E100''
            (snd (saveGoals reachable sample_env ''E100'' [sample_goal] (new_DataHandler True empty_storage))))
       = Inr [sample_goal]"
proof -
  have a: "fst (saveGoals reachable sample_env ''E100'' [sample_goal] (new_DataHandler True empty_storage)) = Inr ()"
    by (simp add: saveGoals_def mr_unfold)
  have b: "\<forall>k\<le>maxRetries. (unreachable :: nat \<Rightarrow> goal list response option) k = None"
    by (simp add: unreachable_def)
  from a b goals_read_your_writes [OF a b, of sample_env] show ?thesis
    by simp
qed

section \<open>Properties of the performance summary\<close>

lemma makeRequest_db:
  "db_goals (snd (makeRequest net env ep m d rc s)) = db_goals s"
  "db_competencies (snd (makeRequest net env ep m d rc s)) = db_competencies s"
  "db_employees (snd (makeRequest net env ep m d rc s)) = db_employees s"
  "db_systemConfig (snd (makeRequest net env ep m d rc s)) = db_systemConfig s"
  by (simp_all add: makeRequest_snd Let_def)

lemma calculateOfflinePerformanceSummary_cache:
  assumes "db_goals s' = db_goals s" and "db_competencies s' = db_competencies s"
  shows "calculateOfflinePerformanceSummary empCode s' = calculateOfflinePerformanceSummary empCode s"
  unfolding calculateOfflinePerformanceSummary_def assms ..

lemma getPerformanceSummary_fst:
  "fst (getPerformanceSummary net env empCode s) =
     (case request_outcome net 0 of
        Some response \<Rightarrow> Inr (response_data response)
      | None \<Rightarrow> calculateOfflinePerformanceSummary empCode s)"
  by (simp add: getPerformanceSummary_def prod.case_eq_if sum.case_eq_if makeRequest_fst
        calculateOfflinePerformanceSummary_cache [OF makeRequest_db(1,2)] split: option.split)

lemma offline_summary_empty:
  "offline_summary [] [] =
     \<lparr>goalsProgress = Finite 0, competencyAverage = Finite 0, overallRating = Finite 0, offline = True\<rparr>"
  by code_simp

lemma offline_summary_offline: "offline (offline_summary goals competencies)"
  by (simp add: offline_summary_def Let_def)

text \<open>
  Where the cache holds arrays for the employee, or nothing under a code that names no
  inherited member, the summary is returned when the request fails, with \<open>offline\<close>
  true, and its scores are zero when both arrays are empty or absent.
\<close>

lemma getPerformanceSummary_from_arrays:
  assumes "\<forall>k\<le>maxRetries. net k = None"
      and "get_property (db_goals s) empCode = Own goals
           \<or> get_property (db_goals s) empCode = Undefined \<and> goals = []"
      and "get_property (db_competencies s) empCode = Own (CompetencyList competencies)
           \<or> get_property (db_competencies s) empCode = Undefined \<and> competencies = []"
  shows "fst (getPerformanceSummary net env empCode s) = Inr (offline_summary goals competencies)"
proof -
  from assms(1) have out: "request_outcome net 0 = None"
    by (simp add: all_fail_outcome)
  from assms(2,3) have "calculateOfflinePerformanceSummary empCode s = Inr (offline_summary goals competencies)"
    by (auto simp: calculateOfflinePerformanceSummary_def)
  with out show ?thesis
    by (simp add: getPerformanceSummary_fst)
qed

lemma sample_summary:
  "fst (getPerformanceSummary unreachable sample_env ''E100''
        ((new_DataHandler False empty_storage)
           \<lparr>db_goals := [''E100'' \<mapsto> [sample_goal, sample_goal\<lparr>achieved_ratio := Some 50\<rparr>, sample_goal\<lparr>achieved_ratio := None\<rparr>]],
            db_competencies := [''E100'' \<mapsto> CompetencyList
               [\<lparr>competency_name = ''Teamwork'', competency_total_score = Some (9 / 2)\<rparr>,
                \<lparr>competency_name = ''Ownership'', competency_total_score = None\<rparr>]]\<rparr>))
     = Inr \<lparr>goalsProgress = Finite 33, competencyAverage = Finite (9 / 4), overallRating = Finite 24,
            offline = True\<rparr>"
proof -
  have a: "\<forall>k\<le>maxRetries. (unreachable :: nat \<Rightarrow> performance_summary response option) k = None"
    by (simp add: unreachable_def)
  have b: "offline_summary [sample_goal, sample_goal\<lparr>achieved_ratio := Some 50\<rparr>, sample_goal\<lparr>achieved_ratio := None\<rparr>]
             [\<lparr>competency_name = ''Teamwork'', competency_total_score = Some (9 / 2)\<rparr>,
              \<lparr>competency_name = ''Ownership'', competency_total_score = None\<rparr>]
           = \<lparr>goalsProgress = Finite 33, competencyAverage = Finite (9 / 4), overallRating = Finite 24,
                offline = True\<rparr>"
    by code_simp
  show ?thesis
    by (subst getPerformanceSummary_from_arrays [OF a, where goals = "[sample_goal, sample_goal\<lparr>achieved_ratio := Some 50\<rparr>, sample_goal\<lparr>achieved_ratio := None\<rparr>]"
          and competencies = "[\<lparr>competency_name = ''Teamwork'', competency_total_score = Some (9 / 2)\<rparr>,
              \<lparr>competency_name = ''Ownership'', competency_total_score = None\<rparr>]"])
       (simp_all add: get_property_def b)
qed

text \<open>
  C10. The claim fails in the code wherever the cached entry is truthy and not an array.
  The employee code \<open>toString\<close> passes \<open>validateEmployeeCode\<close>; with nothing cached,
  \<open>this.db.goals['toString']\<close> is the function that every object inherits, and
  \<open>goals.filter\<close> is not a function. And \<open>BehaviouralCompetencyManager\<close> saves its
  \<open>evaluationData\<close> object, on which \<open>competencies.map\<close> is not a function. In both
  cases, when the request fails, the \<open>TypeError\<close> leaves \<open>getPerformanceSummary\<close>: no
  summary is returned.
\<close>

theorem getPerformanceSummary_throws_TypeError:
  "validateEmployeeCode ''toString''
   \<and> db_goals (new_DataHandler False empty_storage) ''toString'' = None
   \<and> db_competencies (new_DataHandler False empty_storage) ''toString'' = None
   \<and> fst (getPerformanceSummary unreachable sample_env ''toString'' (new_DataHandler False empty_storage))
       = Inl TypeError
   \<and> fst (saveBehaviouralCompetencies reachable sample_env ''E100'' (EvaluationData sample_evaluation)
            (new_DataHandler True empty_storage)) = Inr ()
   \<and> fst (getPerformanceSummary unreachable sample_env ''E100''
            (snd (saveBehaviouralCompetencies reachable sample_env ''E100'' (EvaluationData sample_evaluation)
                    (new_DataHandler True empty_storage))))
       = Inl TypeError"
proof -
  have v: "validateEmployeeCode ''toString''"
    by (simp add: validateEmployeeCode_def trim_def is_space_def is_alnum_def Let_def)
  have e: "db_goals (new_DataHandler False empty_storage) ''toString'' = None"
      "db_competencies (new_DataHandler False empty_storage) ''toString'' = None"
    by (simp_all add: new_DataHandler_def empty_storage_def)
  have t: "fst (getPerformanceSummary unreachable sample_env ''toString'' (new_DataHandler False empty_storage))
       = Inl TypeError"
    by (simp add: getPerformanceSummary_fst calculateOfflinePerformanceSummary_def get_property_def
          Object_prototype_def new_DataHandler_def empty_storage_def)
  let ?s = "snd (saveBehaviouralCompetencies reachable sample_env ''E100'' (EvaluationData sample_evaluation)
                    (new_DataHandler True empty_storage))"
  have r: "fst (saveBehaviouralCompetencies reachable sample_env ''E100'' (EvaluationData sample_evaluation)
            (new_DataHandler True empty_storage)) = Inr ()"
    by (simp add: saveBehaviouralCompetencies_def mr_unfold)
  have c: "db_competencies ?s ''E100'' = Some (EvaluationData sample_evaluation)"
    by (simp add: saveBehaviouralCompetencies_def mr_unfold saveLocalData_competencies_def)
  have "fst (getPerformanceSummary unreachable sample_env ''E100'' ?s) = Inl TypeError"
    by (simp add: getPerformanceSummary_fst calculateOfflinePerformanceSummary_def get_property_def c
          split: option.split)
  with v e t r show ?thesis
    by simp
qed

section \<open>Properties of the replay of the sync queue\<close>

lemma makeRequest_online:
  assumes "isOnline s"
  shows "makeRequest net env ep m d 0 s =
           ((case request_outcome net 0 of Some r \<Rightarrow> Inr r | None \<Rightarrow> Inl RequestFailed),
            s\<lparr>fetched := fetched s @ replicate (request_attempts net 0) (request_of ep m d)\<rparr>)"
  using assms makeRequest_fst [of net env ep m d 0 s] makeRequest_snd [of net env ep m d 0 s]
  by (simp add: prod_eq_iff Let_def)

lemma processSyncQueue_loop_online:
  assumes "isOnline s" and "i \<le> length (syncQueue s)"
  shows "processSyncQueue_loop net env i P s =
           Some (P @ replay_processed net i (drop i (syncQueue s)),
                 s\<lparr>syncQueue := take i (syncQueue s) @ replay_items net i (drop i (syncQueue s)),
                   fetched := fetched s @ replay_fetched net i (drop i (syncQueue s))\<rparr>)"
  using assms
proof (induction "length (syncQueue s) - i" arbitrary: i P s)
  case 0
  then have "i = length (syncQueue s)"
    by simp
  then show ?case
    by (subst processSyncQueue_loop.simps) simp
next
  case (Suc n)
  then have lt: "i < length (syncQueue s)"
    by simp
  let ?q = "syncQueue s"
  let ?t = "?q ! i"
  let ?s1 = "s\<lparr>fetched := fetched s @ replicate (request_attempts (net i) 0)
                 (request_of (endpoint ?t) (item_method ?t) (data ?t))\<rparr>"
  have mr: "makeRequest (net i) env (endpoint ?t) (item_method ?t) (data ?t) 0 s =
              ((case request_outcome (net i) 0 of Some r \<Rightarrow> Inr r | None \<Rightarrow> Inl RequestFailed), ?s1)"
    by (rule makeRequest_online [OF Suc.prems(1)])
  have dr: "drop i ?q = ?t # drop (i + 1) ?q"
    using lt by (simp add: Cons_nth_drop_Suc)
  show ?case
  proof (cases "request_outcome (net i) 0")
    case (Some r)
    have ih: "processSyncQueue_loop net env (i + 1) (P @ [item_id ?t]) ?s1 =
           Some ((P @ [item_id ?t]) @ replay_processed net (i + 1) (drop (i + 1) (syncQueue ?s1)),
                 ?s1\<lparr>syncQueue := take (i + 1) (syncQueue ?s1) @ replay_items net (i + 1) (drop (i + 1) (syncQueue ?s1)),
                   fetched := fetched ?s1 @ replay_fetched net (i + 1) (drop (i + 1) (syncQueue ?s1))\<rparr>)"
      using Suc.hyps(2) Suc.prems lt by (intro Suc.hyps(1)) simp_all
    show ?thesis
      using lt Some ih
      by (subst processSyncQueue_loop.simps)
         (simp add: mr dr take_Suc_conv_app_nth Let_def)
  next
    case None
    let ?t' = "?t\<lparr>retryCount := retryCount ?t + 1\<rparr>"
    let ?s2 = "?s1\<lparr>syncQueue := ?q[i := ?t']\<rparr>"
    have ih: "\<And>P'. processSyncQueue_loop net env (i + 1) P' ?s2 =
           Some (P' @ replay_processed net (i + 1) (drop (i + 1) (syncQueue ?s2)),
                 ?s2\<lparr>syncQueue := take (i + 1) (syncQueue ?s2) @ replay_items net (i + 1) (drop (i + 1) (syncQueue ?s2)),
                   fetched := fetched ?s2 @ replay_fetched net (i + 1) (drop (i + 1) (syncQueue ?s2))\<rparr>)"
      using Suc.hyps(2) Suc.prems lt by (intro Suc.hyps(1)) simp_all
    have tk: "take (i + 1) (?q[i := ?t']) = take i ?q @ [?t']"
      using lt by (simp add: take_Suc_conv_app_nth)
    have dp: "drop (i + 1) (?q[i := ?t']) = drop (i + 1) ?q"
      by simp
    show ?thesis
      using lt None ih tk
      by (subst processSyncQueue_loop.simps)
         (simp add: mr dr Let_def)
  qed
qed


lemma processSyncQueue_idle:
  "\<not> isOnline s \<or> syncQueue s = [] \<Longrightarrow> processSyncQueue net env s = Some ([], s)"
  by (auto simp: processSyncQueue_def)

lemma processSyncQueue_online:
  assumes "isOnline s" and "syncQueue s \<noteq> []"
  shows "processSyncQueue net env s =
           Some (replay_processed net 0 (syncQueue s),
                 saveLocalData_syncQueue
                   (s\<lparr>syncQueue := filter (\<lambda>item. item_id item \<notin> set (replay_processed net 0 (syncQueue s)))
                                      (replay_items net 0 (syncQueue s)),
                     fetched := fetched s @ replay_fetched net 0 (syncQueue s)\<rparr>))"
  using assms processSyncQueue_loop_online [of s 0 net env "[]"]
  by (simp add: processSyncQueue_def saveLocalData_syncQueue_def)

lemma replay_items_ids: "map item_id (replay_items net i ts) = map item_id ts"
  by (induction ts arbitrary: i) simp_all

lemma replay_processed_subset: "set (replay_processed net i ts) \<subseteq> item_id ` set ts"
  by (induction ts arbitrary: i) auto

lemma filter_replay_items:
  assumes "distinct (map item_id ts)"
  shows "filter (\<lambda>item. item_id item \<notin> set (replay_processed net i ts)) (replay_items net i ts)
           = survivors net i ts"
  using assms
proof (induction ts arbitrary: i)
  case Nil
  then show ?case by simp
next
  case (Cons t ts)
  have notin: "item_id t \<notin> set (replay_processed net (i + 1) ts)"
    using Cons.prems replay_processed_subset [of net "i + 1" ts] by auto
  have rest: "filter (\<lambda>item. item_id item \<noteq> item_id t \<and> item_id item \<notin> set (replay_processed net (i + 1) ts))
                (replay_items net (i + 1) ts)
              = filter (\<lambda>item. item_id item \<notin> set (replay_processed net (i + 1) ts)) (replay_items net (i + 1) ts)"
  proof (rule filter_cong [OF refl])
    fix x assume "x \<in> set (replay_items net (i + 1) ts)"
    then have "item_id x \<in> set (map item_id (replay_items net (i + 1) ts))"
      by simp
    then have "item_id x \<in> item_id ` set ts"
      by (simp add: replay_items_ids)
    with Cons.prems have "item_id x \<noteq> item_id t"
      by auto
    then show "(item_id x \<noteq> item_id t \<and> item_id x \<notin> set (replay_processed net (i + 1) ts))
               = (item_id x \<notin> set (replay_processed net (i + 1) ts))"
      by simp
  qed
  from Cons.prems have d: "distinct (map item_id ts)"
    by simp
  show ?case
    using notin rest Cons.IH [OF d, of "i + 1"]
    by (auto simp: not_le)
qed

lemma survivors_member:
  assumes "j < length ts" and "request_outcome (net (i + j)) 0 = None"
      and "retryCount (ts ! j) + 1 < maxRetries"
  shows "(ts ! j)\<lparr>retryCount := retryCount (ts ! j) + 1\<rparr> \<in> set (survivors net i ts)"
  using assms
proof (induction ts arbitrary: i j)
  case Nil
  then show ?case by simp
next
  case (Cons t ts)
  show ?case
  proof (cases j)
    case 0
    with Cons.prems show ?thesis by simp
  next
    case (Suc k)
    with Cons.prems Cons.IH [of k "Suc i"] show ?thesis by simp
  qed
qed

lemma survivors_origin:
  assumes "x \<in> set (survivors net i ts)"
  shows "\<exists>j<length ts. x = (ts ! j)\<lparr>retryCount := retryCount (ts ! j) + 1\<rparr>
           \<and> request_outcome (net (i + j)) 0 = None \<and> retryCount (ts ! j) + 1 < maxRetries"
  using assms
proof (induction ts arbitrary: i)
  case Nil
  then show ?case by simp
next
  case (Cons t ts)
  show ?case
  proof (cases "x \<in> set (survivors net (Suc i) ts)")
    case True
    from Cons.IH [OF True] obtain j where "j < length ts"
      "x = (ts ! j)\<lparr>retryCount := retryCount (ts ! j) + 1\<rparr>"
      "request_outcome (net (Suc i + j)) 0 = None" "retryCount (ts ! j) + 1 < maxRetries"
      by blast
    then show ?thesis
      by (intro exI [of _ "Suc j"]) simp
  next
    case False
    with Cons.prems show ?thesis
      by (intro exI [of _ 0]) (simp split: if_splits)
  qed
qed

lemma replay_processed_member:
  assumes "j < length ts"
      and "request_outcome (net (i + j)) 0 \<noteq> None \<or> maxRetries \<le> retryCount (ts ! j) + 1"
  shows "item_id (ts ! j) \<in> set (replay_processed net i ts)"
  using assms
proof (induction ts arbitrary: i j)
  case Nil
  then show ?case by simp
next
  case (Cons t ts)
  show ?case
  proof (cases j)
    case 0
    with Cons.prems show ?thesis by auto
  next
    case (Suc k)
    with Cons.prems Cons.IH [of k "Suc i"] show ?thesis by simp
  qed
qed

lemma replay_processed_origin:
  assumes "a \<in> set (replay_processed net i ts)"
  shows "\<exists>j<length ts. a = item_id (ts ! j)
           \<and> (request_outcome (net (i + j)) 0 \<noteq> None \<or> maxRetries \<le> retryCount (ts ! j) + 1)"
  using assms
proof (induction ts arbitrary: i)
  case Nil
  then show ?case by simp
next
  case (Cons t ts)
  show ?case
  proof (cases "a \<in> set (replay_processed net (Suc i) ts)")
    case True
    from Cons.IH [OF True] obtain j where "j < length ts" "a = item_id (ts ! j)"
      "request_outcome (net (Suc i + j)) 0 \<noteq> None \<or> maxRetries \<le> retryCount (ts ! j) + 1"
      by blast
    then show ?thesis
      by (intro exI [of _ "Suc j"]) simp
  next
    case False
    with Cons.prems show ?thesis
      by (intro exI [of _ 0]) (simp split: if_splits)
  qed
qed


lemma distinct_ids_index:
  assumes "distinct (map item_id ts)" and "j < length ts" and "k < length ts"
      and "item_id (ts ! j) = item_id (ts ! k)"
  shows "j = k"
proof -
  from assms(2-4) have "map item_id ts ! j = map item_id ts ! k"
    by simp
  moreover have "j < length (map item_id ts)" "k < length (map item_id ts)"
    using assms(2,3) by simp_all
  ultimately show ?thesis
    using assms(1) nth_eq_iff_index_eq [of "map item_id ts" j k] by blast
qed

lemma survivors_id_iff:
  assumes "distinct (map item_id ts)" and "j < length ts"
  shows "item_id (ts ! j) \<in> item_id ` set (survivors net i ts)
           \<longleftrightarrow> request_outcome (net (i + j)) 0 = None \<and> retryCount (ts ! j) + 1 < maxRetries"
proof
  assume "item_id (ts ! j) \<in> item_id ` set (survivors net i ts)"
  then obtain x where x: "x \<in> set (survivors net i ts)" and id: "item_id (ts ! j) = item_id x"
    by auto
  from survivors_origin [OF x] obtain k where k: "k < length ts"
    "x = (ts ! k)\<lparr>retryCount := retryCount (ts ! k) + 1\<rparr>"
    "request_outcome (net (i + k)) 0 = None" "retryCount (ts ! k) + 1 < maxRetries"
    by blast
  from id k(2) have "item_id (ts ! j) = item_id (ts ! k)"
    by simp
  with assms k(1) have "j = k"
    by (rule distinct_ids_index)
  with k show "request_outcome (net (i + j)) 0 = None \<and> retryCount (ts ! j) + 1 < maxRetries"
    by simp
next
  assume "request_outcome (net (i + j)) 0 = None \<and> retryCount (ts ! j) + 1 < maxRetries"
  then have a: "request_outcome (net (i + j)) 0 = None" and b: "retryCount (ts ! j) + 1 < maxRetries"
    by simp_all
  have "(ts ! j)\<lparr>retryCount := retryCount (ts ! j) + 1\<rparr> \<in> set (survivors net i ts)"
    using assms(2) a b by (rule survivors_member [where net = net and i = i])
  then have "item_id ((ts ! j)\<lparr>retryCount := retryCount (ts ! j) + 1\<rparr>) \<in> item_id ` set (survivors net i ts)"
    by (rule imageI)
  then show "item_id (ts ! j) \<in> item_id ` set (survivors net i ts)"
    by simp
qed

lemma replay_processed_id_iff:
  assumes "distinct (map item_id ts)" and "j < length ts"
  shows "item_id (ts ! j) \<in> set (replay_processed net i ts)
           \<longleftrightarrow> request_outcome (net (i + j)) 0 \<noteq> None \<or> maxRetries \<le> retryCount (ts ! j) + 1"
proof
  assume "item_id (ts ! j) \<in> set (replay_processed net i ts)"
  from replay_processed_origin [OF this] obtain k where k: "k < length ts"
    "item_id (ts ! j) = item_id (ts ! k)"
    "request_outcome (net (i + k)) 0 \<noteq> None \<or> maxRetries \<le> retryCount (ts ! k) + 1"
    by blast
  from assms k(1,2) have "j = k"
    by (rule distinct_ids_index)
  with k(3) show "request_outcome (net (i + j)) 0 \<noteq> None \<or> maxRetries \<le> retryCount (ts ! j) + 1"
    by simp
next
  assume "request_outcome (net (i + j)) 0 \<noteq> None \<or> maxRetries \<le> retryCount (ts ! j) + 1"
  with assms(2) show "item_id (ts ! j) \<in> set (replay_processed net i ts)"
    by (rule replay_processed_member)
qed

lemma survivors_distinct:
  assumes "distinct (map item_id ts)"
  shows "distinct (map item_id (survivors net i ts))"
proof -
  have "distinct (map item_id (filter (\<lambda>item. item_id item \<notin> set (replay_processed net i ts))
                                (replay_items net i ts)))"
    using assms by (intro distinct_map_filter) (simp add: replay_items_ids)
  with assms show ?thesis
    by (simp add: filter_replay_items)
qed

lemma processSyncQueue_result:
  assumes "distinct (map item_id (syncQueue s))"
  shows "processSyncQueue net env s =
           (if isOnline s
            then Some (replay_processed net 0 (syncQueue s),
                       (if syncQueue s = [] then s
                        else saveLocalData_syncQueue
                               (s\<lparr>syncQueue := survivors net 0 (syncQueue s),
                                  fetched := fetched s @ replay_fetched net 0 (syncQueue s)\<rparr>)))
            else Some ([], s))"
proof (cases "isOnline s \<and> syncQueue s \<noteq> []")
  case True
  then show ?thesis
    using processSyncQueue_online [of s net env] filter_replay_items [OF assms, of net 0]
    by simp
next
  case False
  then show ?thesis
    using processSyncQueue_idle [of s net env] by auto
qed

text \<open>
  C4 (as the code has it, for a call of \<open>processSyncQueue\<close> that runs from its start to
  its end with nothing in between: no other call on the instance, no \<open>online\<close> or
  \<open>offline\<close> event, so that \<open>isOnline\<close> is the same throughout). A new item has
  \<open>retryCount\<close> 0. Take a queue whose ids are pairwise different and whose items all
  have \<open>retryCount\<close> below \<open>maxRetries\<close>. Such a call returns; offline it changes
  nothing; online, for the item at each position: if its replay succeeds, the item
  leaves the queue; if its replay fails and \<open>retryCount + 1\<close> is still below
  \<open>maxRetries\<close>, the item stays with \<open>retryCount + 1\<close> and is not reported; if its
  replay fails and \<open>retryCount + 1\<close> equals \<open>maxRetries\<close>, the item is reported and
  leaves the queue. The queue after the call again has different ids and every
  \<open>retryCount\<close> below \<open>maxRetries\<close>, so the same holds for the next such call, and in
  a series of such calls an item is never replayed once it has reached \<open>maxRetries\<close>.
\<close>

theorem retry_budget_of_a_drain_pass:
  assumes "distinct (map item_id (syncQueue s))"
      and "\<forall>t\<in>set (syncQueue s). retryCount t < maxRetries"
  shows "\<exists>P s'. processSyncQueue net env s = Some (P, s')
     \<and> (\<not> isOnline s \<longrightarrow> P = [] \<and> s' = s)
     \<and> (isOnline s \<longrightarrow>
         (\<forall>j<length (syncQueue s).
            ((\<exists>k\<le>maxRetries. net j k \<noteq> None) \<longrightarrow>
               item_id (syncQueue s ! j) \<in> set P
               \<and> item_id (syncQueue s ! j) \<notin> item_id ` set (syncQueue s'))
          \<and> ((\<forall>k\<le>maxRetries. net j k = None) \<and> retryCount (syncQueue s ! j) + 1 < maxRetries \<longrightarrow>
               (syncQueue s ! j)\<lparr>retryCount := retryCount (syncQueue s ! j) + 1\<rparr> \<in> set (syncQueue s')
               \<and> item_id (syncQueue s ! j) \<notin> set P)
          \<and> ((\<forall>k\<le>maxRetries. net j k = None) \<and> retryCount (syncQueue s ! j) + 1 = maxRetries \<longrightarrow>
               item_id (syncQueue s ! j) \<in> set P
               \<and> item_id (syncQueue s ! j) \<notin> item_id ` set (syncQueue s')))
         \<and> syncQueue s' = survivors net 0 (syncQueue s))
     \<and> distinct (map item_id (syncQueue s'))
     \<and> (\<forall>t\<in>set (syncQueue s'). retryCount t < maxRetries)
     \<and> retryCount (last (syncQueue (addToSyncQueue env ep m d s))) = 0
     \<and> (\<forall>t\<in>set (syncQueue (addToSyncQueue env ep m d s)). retryCount t < maxRetries)"
proof -
  let ?q = "syncQueue s"
  define P where "P = (if isOnline s then replay_processed net 0 ?q else [])"
  define s' where "s' = (if isOnline s \<and> ?q \<noteq> []
             then saveLocalData_syncQueue
                    (s\<lparr>syncQueue := survivors net 0 ?q, fetched := fetched s @ replay_fetched net 0 ?q\<rparr>)
             else s)"
  have run: "processSyncQueue net env s = Some (P, s')"
    by (simp add: processSyncQueue_result [OF assms(1)] P_def s'_def)
  have off: "\<not> isOnline s \<Longrightarrow> P = [] \<and> s' = s"
    by (simp add: P_def s'_def)
  have P_on: "isOnline s \<Longrightarrow> P = replay_processed net 0 ?q"
    by (simp add: P_def)
  have q_on: "isOnline s \<Longrightarrow> syncQueue s' = survivors net 0 ?q"
    by (simp add: s'_def saveLocalData_syncQueue_def)
  have fail: "(\<forall>k\<le>maxRetries. net j k = None) \<longleftrightarrow> request_outcome (net j) 0 = None" for j
    by (rule all_fail_outcome)
  have ok: "(\<exists>k\<le>maxRetries. net j k \<noteq> None) \<longleftrightarrow> request_outcome (net j) 0 \<noteq> None" for j
    using all_fail_outcome [of "net j"] by auto
  have per_item: "((\<exists>k\<le>maxRetries. net j k \<noteq> None) \<longrightarrow>
               item_id (?q ! j) \<in> set P \<and> item_id (?q ! j) \<notin> item_id ` set (syncQueue s'))
          \<and> ((\<forall>k\<le>maxRetries. net j k = None) \<and> retryCount (?q ! j) + 1 < maxRetries \<longrightarrow>
               (?q ! j)\<lparr>retryCount := retryCount (?q ! j) + 1\<rparr> \<in> set (syncQueue s')
               \<and> item_id (?q ! j) \<notin> set P)
          \<and> ((\<forall>k\<le>maxRetries. net j k = None) \<and> retryCount (?q ! j) + 1 = maxRetries \<longrightarrow>
               item_id (?q ! j) \<in> set P \<and> item_id (?q ! j) \<notin> item_id ` set (syncQueue s'))"
    if on: "isOnline s" and j: "j < length ?q" for j
  proof -
    note a = survivors_id_iff [OF assms(1) j, of net 0, simplified]
    note b = replay_processed_id_iff [OF assms(1) j, of net 0, simplified]
    have c: "request_outcome (net j) 0 = None \<Longrightarrow> retryCount (?q ! j) + 1 < maxRetries \<Longrightarrow>
               (?q ! j)\<lparr>retryCount := retryCount (?q ! j) + 1\<rparr> \<in> set (survivors net 0 ?q)"
      using survivors_member [OF j, of net 0] by simp
    show ?thesis
      unfolding fail ok P_on [OF on] q_on [OF on]
      using a b c by auto
  qed
  have d: "distinct (map item_id (syncQueue s'))"
    using assms(1) survivors_distinct [OF assms(1), of net 0]
    by (simp add: s'_def saveLocalData_syncQueue_def)
  have surv: "retryCount t < maxRetries" if "t \<in> set (survivors net 0 ?q)" for t
  proof -
    from survivors_origin [OF that] obtain j where
      "t = (?q ! j)\<lparr>retryCount := retryCount (?q ! j) + 1\<rparr>" "retryCount (?q ! j) + 1 < maxRetries"
      by blast
    then show ?thesis
      by simp
  qed
  have inv: "\<forall>t\<in>set (syncQueue s'). retryCount t < maxRetries"
    using assms(2) surv
    by (auto simp: s'_def saveLocalData_syncQueue_def)
  have new: "retryCount (last (syncQueue (addToSyncQueue env ep m d s))) = 0"
    "\<forall>t\<in>set (syncQueue (addToSyncQueue env ep m d s)). retryCount t < maxRetries"
    using assms(2) by (auto simp: queued_item_def maxRetries_def)
  show ?thesis
  proof (intro exI [of _ P] exI [of _ s'] conjI)
    show "processSyncQueue net env s = Some (P, s')"
      by (rule run)
    show "\<not> isOnline s \<longrightarrow> P = [] \<and> s' = s"
      using off by simp
    show "isOnline s \<longrightarrow>
         (\<forall>j<length (syncQueue s).
            ((\<exists>k\<le>maxRetries. net j k \<noteq> None) \<longrightarrow>
               item_id (syncQueue s ! j) \<in> set P
               \<and> item_id (syncQueue s ! j) \<notin> item_id ` set (syncQueue s'))
          \<and> ((\<forall>k\<le>maxRetries. net j k = None) \<and> retryCount (syncQueue s ! j) + 1 < maxRetries \<longrightarrow>
               (syncQueue s ! j)\<lparr>retryCount := retryCount (syncQueue s ! j) + 1\<rparr> \<in> set (syncQueue s')
               \<and> item_id (syncQueue s ! j) \<notin> set P)
          \<and> ((\<forall>k\<le>maxRetries. net j k = None) \<and> retryCount (syncQueue s ! j) + 1 = maxRetries \<longrightarrow>
               item_id (syncQueue s ! j) \<in> set P
               \<and> item_id (syncQueue s ! j) \<notin> item_id ` set (syncQueue s')))
         \<and> syncQueue s' = survivors net 0 (syncQueue s)"
      using per_item q_on by blast
    show "distinct (map item_id (syncQueue s'))"
      by (rule d)
    show "\<forall>t\<in>set (syncQueue s'). retryCount t < maxRetries"
      by (rule inv)
    show "retryCount (last (syncQueue (addToSyncQueue env ep m d s))) = 0"
      by (rule new(1))
    show "\<forall>t\<in>set (syncQueue (addToSyncQueue env ep m d s)). retryCount t < maxRetries"
      by (rule new(2))
  qed
qed

lemma sample_replies_outcome:
  "request_outcome (sample_replies j) 0 = (if j = 0 then Some () else None)"
proof (cases "j = 0")
  case True
  have "request_outcome (sample_replies 0) 1 = Some ()"
    by (subst request_outcome.simps) (simp add: sample_replies_def)
  then have "request_outcome (sample_replies 0) 0 = Some ()"
    by (subst request_outcome.simps) (simp add: sample_replies_def maxRetries_def)
  with True show ?thesis by simp
next
  case False
  then have "\<forall>k\<le>maxRetries. sample_replies j k = None"
    by (simp add: sample_replies_def)
  with False show ?thesis
    by (simp add: all_fail_outcome)
qed

text \<open>
  The theorem at a queue of three items: the first is answered at its second attempt,
  the second fails for the first time, the third fails for the third time.
\<close>

theorem retry_budget_of_a_drain_pass_witness:
  "\<exists>P s'. processSyncQueue sample_replies sample_env
              ((new_DataHandler True empty_storage)\<lparr>syncQueue := sample_queue\<rparr>) = Some (P, s')
     \<and> 1 \<in> set P \<and> 2 \<notin> set P \<and> 3 \<in> set P
     \<and> syncQueue s' = [(sample_queue ! 1)\<lparr>retryCount := 1\<rparr>]"
proof -
  let ?s = "(new_DataHandler True empty_storage)\<lparr>syncQueue := sample_queue\<rparr>"
  have d: "distinct (map item_id (syncQueue ?s))"
    by (simp add: sample_queue_def)
  have r: "\<forall>t\<in>set (syncQueue ?s). retryCount t < maxRetries"
    by (simp add: sample_queue_def maxRetries_def)
  have on: "isOnline ?s"
    by (simp add: new_DataHandler_def)
  have ok0: "\<exists>k\<le>maxRetries. sample_replies 0 k \<noteq> None"
    by (intro exI [of _ 1]) (simp add: sample_replies_def maxRetries_def)
  have f1: "\<forall>k\<le>maxRetries. sample_replies 1 k = None" and f2: "\<forall>k\<le>maxRetries. sample_replies 2 k = None"
    by (simp_all add: sample_replies_def)
  from retry_budget_of_a_drain_pass [OF d r, of sample_replies sample_env "''/x''" GET NoData]
  obtain P s' where run: "processSyncQueue sample_replies sample_env ?s = Some (P, s')"
    and items: "\<forall>j<length (syncQueue ?s).
            ((\<exists>k\<le>maxRetries. sample_replies j k \<noteq> None) \<longrightarrow>
               item_id (syncQueue ?s ! j) \<in> set P
               \<and> item_id (syncQueue ?s ! j) \<notin> item_id ` set (syncQueue s'))
          \<and> ((\<forall>k\<le>maxRetries. sample_replies j k = None) \<and> retryCount (syncQueue ?s ! j) + 1 < maxRetries \<longrightarrow>
               (syncQueue ?s ! j)\<lparr>retryCount := retryCount (syncQueue ?s ! j) + 1\<rparr> \<in> set (syncQueue s')
               \<and> item_id (syncQueue ?s ! j) \<notin> set P)
          \<and> ((\<forall>k\<le>maxRetries. sample_replies j k = None) \<and> retryCount (syncQueue ?s ! j) + 1 = maxRetries \<longrightarrow>
               item_id (syncQueue ?s ! j) \<in> set P
               \<and> item_id (syncQueue ?s ! j) \<notin> item_id ` set (syncQueue s'))"
    and q: "syncQueue s' = survivors sample_replies 0 (syncQueue ?s)"
    using on by blast
  from items [rule_format, of 0] ok0 have p1: "1 \<in> set P"
    by (simp add: sample_queue_def)
  from items [rule_format, of 1] f1 have p2: "2 \<notin> set P"
    by (simp add: sample_queue_def maxRetries_def)
  from items [rule_format, of 2] f2 have p3: "3 \<in> set P"
    by (simp add: sample_queue_def maxRetries_def)
  from q have "syncQueue s' = [(sample_queue ! 1)\<lparr>retryCount := 1\<rparr>]"
    by (simp add: sample_queue_def sample_replies_outcome maxRetries_def)
  with run p1 p2 p3 show ?thesis
    by blast
qed


section \<open>Properties of the operations on the queue\<close>

lemmas storage_defs =
  saveLocalData_syncQueue_def saveLocalData_employees_def saveLocalData_goals_def
  saveLocalData_competencies_def saveLocalData_competencyMaster_def saveLocalData_systemConfig_def
  setLocalData_def removeLocalData_currentUser_def setAuthToken_def removeAuthToken_def




lemma processSyncQueue_returns:
  "\<exists>P s'. processSyncQueue net env s = Some (P, s')
     \<and> syncQueue s' =
         (if isOnline s
          then filter (\<lambda>item. item_id item \<notin> set (replay_processed net 0 (syncQueue s)))
                 (replay_items net 0 (syncQueue s))
          else syncQueue s)
     \<and> (pms_syncQueue (localStorage s') = Some (syncQueue s')
            \<or> syncQueue s' = syncQueue s \<and> pms_syncQueue (localStorage s') = pms_syncQueue (localStorage s))
     \<and> db_goals s' = db_goals s \<and> db_competencies s' = db_competencies s
     \<and> db_employees s' = db_employees s \<and> db_systemConfig s' = db_systemConfig s
     \<and> fetched s' = (if isOnline s then fetched s @ replay_fetched net 0 (syncQueue s) else fetched s)"
proof (cases "isOnline s \<and> syncQueue s \<noteq> []")
  case True
  then show ?thesis
    using processSyncQueue_online [of s net env]
    by (simp add: saveLocalData_syncQueue_def)
next
  case False
  then show ?thesis
    using processSyncQueue_idle [of s net env] by auto
qed







section \<open>Properties of a series of saves followed by a replay\<close>

lemma saveGoals_isOnline: "isOnline (snd (saveGoals net env empCode goalsData s)) = isOnline s"
  by (simp add: saveGoals_def mr_unfold storage_defs)

lemma saveGoals_each_isOnline: "isOnline (saveGoals_each env empCode writes s) = isOnline s"
  by (induction env empCode writes s rule: saveGoals_each.induct) (simp_all add: saveGoals_isOnline)

lemma saveGoals_each_cache:
  assumes "\<forall>w\<in>set writes. \<forall>k\<le>maxRetries. fst w k = None"
  shows "db_goals (saveGoals_each env empCode writes s) empCode =
           (if writes = [] then db_goals s empCode else Some (snd (last writes)))"
  using assms
proof (induction writes arbitrary: s)
  case Nil
  then show ?case by simp
next
  case (Cons w writes)
  obtain net goalsData where w: "w = (net, goalsData)"
    by (cases w)
  from Cons.prems w have fail: "\<forall>k\<le>maxRetries. net k = None"
    and rest: "\<forall>w\<in>set writes. \<forall>k\<le>maxRetries. fst w k = None"
    by simp_all
  show ?case
    using Cons.IH [OF rest, of "snd (saveGoals net env empCode goalsData s)"]
      saveGoals_failed(2) [OF fail, of env empCode goalsData s]
    by (simp add: w)
qed

lemma saveGoals_each_queue:
  assumes "\<forall>w\<in>set writes. \<forall>k\<le>maxRetries. fst w k = None"
  shows "map data (syncQueue (saveGoals_each env empCode writes s)) =
           map data (syncQueue s)
             @ concat (map (\<lambda>w. replicate (if isOnline s then 1 else 2) (GoalsData (snd w))) writes)"
  using assms
proof (induction writes arbitrary: s)
  case Nil
  then show ?case by simp
next
  case (Cons w writes)
  obtain net goalsData where w: "w = (net, goalsData)"
    by (cases w)
  from Cons.prems w have fail: "\<forall>k\<le>maxRetries. net k = None"
    and rest: "\<forall>w\<in>set writes. \<forall>k\<le>maxRetries. fst w k = None"
    by simp_all
  show ?case
    using Cons.IH [OF rest, of "snd (saveGoals net env empCode goalsData s)"]
      saveGoals_failed(3) [OF fail, of env empCode goalsData s]
    by (simp add: w saveGoals_isOnline queued_item_def numeral_2_eq_2)
qed

lemma replay_processed_all_ok:
  assumes "\<forall>j<length ts. request_outcome (net (i + j)) 0 \<noteq> None"
  shows "replay_processed net i ts = map item_id ts"
  using assms
proof (induction ts arbitrary: i)
  case Nil
  then show ?case by simp
next
  case (Cons t ts)
  from Cons.prems have "request_outcome (net i) 0 \<noteq> None"
    by force
  moreover from Cons.prems have "\<forall>j<length ts. request_outcome (net (Suc i + j)) 0 \<noteq> None"
    by force
  ultimately show ?case
    using Cons.IH [of "Suc i"] by simp
qed

lemma processSyncQueue_all_ok:
  assumes "isOnline s" and "\<forall>j<length (syncQueue s). \<exists>k\<le>maxRetries. net j k \<noteq> None"
  shows "\<exists>P s'. processSyncQueue net env s = Some (P, s')
           \<and> syncQueue s' = [] \<and> db_goals s' = db_goals s
           \<and> db_competencies s' = db_competencies s
           \<and> db_employees s' = db_employees s \<and> db_systemConfig s' = db_systemConfig s
           \<and> fetched s' = fetched s @ replay_fetched net 0 (syncQueue s)"
proof -
  have "request_outcome (net j) 0 \<noteq> None" if "j < length (syncQueue s)" for j
    using assms(2) that all_fail_outcome [of "net j"] by auto
  then have P: "replay_processed net 0 (syncQueue s) = map item_id (syncQueue s)"
    by (intro replay_processed_all_ok) simp
  have F: "filter (\<lambda>item. item_id item \<notin> set (replay_processed net 0 (syncQueue s)))
             (replay_items net 0 (syncQueue s)) = []"
  proof -
    have "item_id x \<in> set (replay_processed net 0 (syncQueue s))"
      if "x \<in> set (replay_items net 0 (syncQueue s))" for x
    proof -
      from that have "item_id x \<in> set (map item_id (replay_items net 0 (syncQueue s)))"
        by simp
      then show ?thesis
        by (simp only: P replay_items_ids)
    qed
    then show ?thesis
      by (simp add: filter_empty_conv)
  qed
  from processSyncQueue_returns [of net env s] obtain P' s' where
    r: "processSyncQueue net env s = Some (P', s')"
    and q: "syncQueue s' =
         (if isOnline s
          then filter (\<lambda>item. item_id item \<notin> set (replay_processed net 0 (syncQueue s)))
                 (replay_items net 0 (syncQueue s))
          else syncQueue s)"
    and db: "db_goals s' = db_goals s" "db_competencies s' = db_competencies s"
      "db_employees s' = db_employees s" "db_systemConfig s' = db_systemConfig s"
    and f: "fetched s' = (if isOnline s then fetched s @ replay_fetched net 0 (syncQueue s) else fetched s)"
    by blast
  from q have "syncQueue s' = []"
    by (simp only: F assms(1) if_True)
  moreover from f have "fetched s' = fetched s @ replay_fetched net 0 (syncQueue s)"
    by (simp only: assms(1) if_True)
  ultimately show ?thesis
    using r db by blast
qed

text \<open>
  \<open>saveGoals\<close> writes the cache in its \<open>catch\<close>. Take any non-empty series of
  \<open>saveGoals\<close> calls for one employee whose requests all fail, then the \<open>online\<close> event
  with a replay in which every request succeeds. The replay returns; the cached goal
  set of the employee is the one saved last, before and after the replay; the queue is
  empty afterwards; the payloads were enqueued in the order of the calls (once per call
  when \<open>isOnline\<close> was true, twice when it was false); and the replay sends the requests
  of the queue in queue order, the attempts for one item next to each other.
\<close>

lemma last_saved_goals_win_after_replay:
  assumes "writes \<noteq> []"
      and "\<forall>w\<in>set writes. \<forall>k\<le>maxRetries. fst w k = None"
      and "\<forall>j<length (syncQueue (saveGoals_each env empCode writes s)). \<exists>k\<le>maxRetries. dnet j k \<noteq> None"
  shows "\<exists>P s2. on_online dnet env2 (saveGoals_each env empCode writes s) = Some (P, s2)
       \<and> db_goals (saveGoals_each env empCode writes s) empCode = Some (snd (last writes))
       \<and> db_goals s2 empCode = Some (snd (last writes))
       \<and> syncQueue s2 = []
       \<and> map data (syncQueue (saveGoals_each env empCode writes s)) =
           map data (syncQueue s)
             @ concat (map (\<lambda>w. replicate (if isOnline s then 1 else 2) (GoalsData (snd w))) writes)
       \<and> fetched s2 = fetched (saveGoals_each env empCode writes s)
                        @ replay_fetched dnet 0 (syncQueue (saveGoals_each env empCode writes s))"
proof -
  let ?s1 = "saveGoals_each env empCode writes s"
  have cache: "db_goals ?s1 empCode = Some (snd (last writes))"
    using saveGoals_each_cache [OF assms(2), of env empCode s] assms(1) by simp
  have queue: "map data (syncQueue ?s1) =
           map data (syncQueue s)
             @ concat (map (\<lambda>w. replicate (if isOnline s then 1 else 2) (GoalsData (snd w))) writes)"
    by (rule saveGoals_each_queue [OF assms(2)])
  have "isOnline (?s1\<lparr>isOnline := True\<rparr>)"
    and "\<forall>j<length (syncQueue (?s1\<lparr>isOnline := True\<rparr>)). \<exists>k\<le>maxRetries. dnet j k \<noteq> None"
    using assms(3) by simp_all
  from processSyncQueue_all_ok [OF this, of env2]
  obtain P s2 where run: "processSyncQueue dnet env2 (?s1\<lparr>isOnline := True\<rparr>) = Some (P, s2)"
    and q2: "syncQueue s2 = []" and g2: "db_goals s2 = db_goals (?s1\<lparr>isOnline := True\<rparr>)"
    and f2: "fetched s2 = fetched (?s1\<lparr>isOnline := True\<rparr>)
                            @ replay_fetched dnet 0 (syncQueue (?s1\<lparr>isOnline := True\<rparr>))"
    by blast
  from run have "on_online dnet env2 ?s1 = Some (P, s2)"
    by (simp add: on_online_def)
  moreover from g2 cache have "db_goals s2 empCode = Some (snd (last writes))"
    by simp
  moreover from f2 have "fetched s2 = fetched ?s1 @ replay_fetched dnet 0 (syncQueue ?s1)"
    by simp
  ultimately show ?thesis
    using cache queue q2 by blast
qed


lemma all_reachable_ok: "\<exists>k\<le>maxRetries. all_reachable j k \<noteq> None"
  by (intro exI [of _ 0]) (simp add: all_reachable_def reachable_def)

text \<open>Two saves made offline on a new instance.\<close>

lemma last_saved_goals_win_after_two_saves:
  "\<exists>P s2. on_online all_reachable sample_env
             (saveGoals_each sample_env ''E100'' sample_writes (new_DataHandler False empty_storage))
             = Some (P, s2)
     \<and> db_goals s2 ''E100'' = Some [sample_goal\<lparr>kra_title := ''Profit''\<rparr>]
     \<and> syncQueue s2 = []
     \<and> map data (syncQueue (saveGoals_each sample_env ''E100'' sample_writes
                               (new_DataHandler False empty_storage)))
         = [GoalsData [sample_goal], GoalsData [sample_goal],
            GoalsData [sample_goal\<lparr>kra_title := ''Profit''\<rparr>],
            GoalsData [sample_goal\<lparr>kra_title := ''Profit''\<rparr>]]"
proof -
  have h1: "sample_writes \<noteq> []"
    by (simp add: sample_writes_def)
  have h2: "\<forall>w\<in>set sample_writes. \<forall>k\<le>maxRetries. fst w k = None"
    by (simp add: sample_writes_def unreachable_def)
  have h3: "\<forall>j<length (syncQueue (saveGoals_each sample_env ''E100'' sample_writes
                                     (new_DataHandler False empty_storage))).
              \<exists>k\<le>maxRetries. all_reachable j k \<noteq> None"
    using all_reachable_ok by blast
  let ?s0 = "new_DataHandler False empty_storage"
  let ?s1 = "saveGoals_each sample_env ''E100'' sample_writes ?s0"
  from last_saved_goals_win_after_replay [OF h1 h2 h3, of sample_env]
  obtain P s2 where run: "on_online all_reachable sample_env ?s1 = Some (P, s2)"
    and cache: "db_goals s2 ''E100'' = Some (snd (last sample_writes))"
    and empty: "syncQueue s2 = []"
    and order: "map data (syncQueue ?s1) =
           map data (syncQueue ?s0)
             @ concat (map (\<lambda>w. replicate (if isOnline ?s0 then 1 else 2) (GoalsData (snd w))) sample_writes)"
    by blast
  have l: "snd (last sample_writes) = [sample_goal\<lparr>kra_title := ''Profit''\<rparr>]"
    by (simp add: sample_writes_def)
  have o: "map data (syncQueue ?s0)
             @ concat (map (\<lambda>w. replicate (if isOnline ?s0 then 1 else 2) (GoalsData (snd w))) sample_writes)
           = [GoalsData [sample_goal], GoalsData [sample_goal],
              GoalsData [sample_goal\<lparr>kra_title := ''Profit''\<rparr>],
              GoalsData [sample_goal\<lparr>kra_title := ''Profit''\<rparr>]]"
    by (simp add: sample_writes_def new_DataHandler_def numeral_2_eq_2)
  from run cache empty order
  have all: "on_online all_reachable sample_env ?s1 = Some (P, s2)
     \<and> db_goals s2 ''E100'' = Some [sample_goal\<lparr>kra_title := ''Profit''\<rparr>]
     \<and> syncQueue s2 = []
     \<and> map data (syncQueue ?s1)
         = [GoalsData [sample_goal], GoalsData [sample_goal],
            GoalsData [sample_goal\<lparr>kra_title := ''Profit''\<rparr>],
            GoalsData [sample_goal\<lparr>kra_title := ''Profit''\<rparr>]]"
    unfolding l o by simp
  show ?thesis
    by (rule exI [of _ P], rule exI [of _ s2], rule all)
qed

lemma updateGoal_failed:
  assumes "\<forall>k\<le>maxRetries. net k = None"
  shows "fst (updateGoal net env empCode goalId d s) = Inl RequestFailed"
    and "db_goals (snd (updateGoal net env empCode goalId d s)) = db_goals s"
    and "isOnline (snd (updateGoal net env empCode goalId d s)) = isOnline s"
proof -
  from assms have out: "request_outcome net 0 = None"
    by (simp add: all_fail_outcome)
  show "fst (updateGoal net env empCode goalId d s) = Inl RequestFailed"
    by (simp add: updateGoal_def out mr_unfold)
  show "db_goals (snd (updateGoal net env empCode goalId d s)) = db_goals s"
    by (simp add: updateGoal_def out mr_unfold)
  show "isOnline (snd (updateGoal net env empCode goalId d s)) = isOnline s"
    by (simp add: updateGoal_def out mr_unfold)
qed

lemma updateSystemSettings_failed:
  assumes "\<forall>k\<le>maxRetries. net k = None"
  shows "fst (updateSystemSettings net env d s) = Inl RequestFailed"
    and "db_systemConfig (snd (updateSystemSettings net env d s)) = db_systemConfig s"
proof -
  from assms have out: "request_outcome net 0 = None"
    by (simp add: all_fail_outcome)
  show "fst (updateSystemSettings net env d s) = Inl RequestFailed"
    by (simp add: updateSystemSettings_def out mr_unfold)
  show "db_systemConfig (snd (updateSystemSettings net env d s)) = db_systemConfig s"
    by (simp add: updateSystemSettings_def out mr_unfold)
qed

text \<open>
  C6. The claim fails in the code for the writes whose \<open>catch\<close> leaves out the cache
  update that \<open>saveGoals\<close>, \<open>updateEmployeeDetails\<close> and
  \<open>saveBehaviouralCompetencies\<close> make there (\<open>Update local cache optimistically\<close>).
  On a new instance, offline, with every request failing: after \<open>saveGoals\<close> and an
  \<open>updateGoal\<close> that renames the goal, then the \<open>online\<close> event and a replay in which
  every request succeeds, the queue is empty and the cache still holds the goal under
  its old title; after \<open>updateSystemSettings\<close> and such a replay, the cached
  configuration does not hold the setting written.
\<close>

theorem offline_update_misses_the_cache:
  "(\<exists>P s3. on_online all_reachable sample_env
       (snd (updateGoal (unreachable :: nat \<Rightarrow> unit option) sample_env ''E100'' ''g1'' sample_title
          (snd (saveGoals (unreachable :: nat \<Rightarrow> unit option) sample_env ''E100'' [sample_goal]
             (new_DataHandler False empty_storage))))) = Some (P, s3)
      \<and> syncQueue s3 = []
      \<and> db_goals s3 ''E100'' = Some [sample_goal]
      \<and> apply_goalData sample_title sample_goal \<noteq> sample_goal)
   \<and> (\<exists>P s3. on_online all_reachable sample_env
       (snd (updateSystemSettings (unreachable :: nat \<Rightarrow> unit option) sample_env [''theme'' \<mapsto> TextValue ''dark'']
          (new_DataHandler False empty_storage))) = Some (P, s3)
      \<and> syncQueue s3 = []
      \<and> db_systemConfig s3 ''theme'' = None)"
proof
  have u: "\<forall>k\<le>maxRetries. (unreachable :: nat \<Rightarrow> unit option) k = None"
    by (simp add: unreachable_def)
  let ?s1 = "snd (saveGoals (unreachable :: nat \<Rightarrow> unit option) sample_env ''E100'' [sample_goal]
             (new_DataHandler False empty_storage))"
  let ?s2 = "snd (updateGoal (unreachable :: nat \<Rightarrow> unit option) sample_env ''E100'' ''g1'' sample_title ?s1)"
  have g: "db_goals ?s2 ''E100'' = Some [sample_goal]"
    using updateGoal_failed(2) [OF u, of sample_env "''E100''" "''g1''" sample_title ?s1]
      saveGoals_failed(2) [OF u, of sample_env "''E100''" "[sample_goal]" "new_DataHandler False empty_storage"]
    by simp
  have "isOnline (?s2\<lparr>isOnline := True\<rparr>)"
    and "\<forall>j<length (syncQueue (?s2\<lparr>isOnline := True\<rparr>)). \<exists>k\<le>maxRetries. all_reachable j k \<noteq> None"
    using all_reachable_ok by simp_all
  from processSyncQueue_all_ok [OF this, of sample_env]
  obtain P s3 where "processSyncQueue all_reachable sample_env (?s2\<lparr>isOnline := True\<rparr>) = Some (P, s3)"
    "syncQueue s3 = []" "db_goals s3 = db_goals (?s2\<lparr>isOnline := True\<rparr>)"
    by blast
  moreover have "apply_goalData sample_title sample_goal \<noteq> sample_goal"
    by (simp add: apply_goalData_def sample_title_def sample_goal_def)
  ultimately show "\<exists>P s3. on_online all_reachable sample_env ?s2 = Some (P, s3)
      \<and> syncQueue s3 = []
      \<and> db_goals s3 ''E100'' = Some [sample_goal]
      \<and> apply_goalData sample_title sample_goal \<noteq> sample_goal"
    using g by (simp add: on_online_def)
next
  have u: "\<forall>k\<le>maxRetries. (unreachable :: nat \<Rightarrow> unit option) k = None"
    by (simp add: unreachable_def)
  let ?s1 = "snd (updateSystemSettings (unreachable :: nat \<Rightarrow> unit option) sample_env [''theme'' \<mapsto> TextValue ''dark'']
          (new_DataHandler False empty_storage))"
  have c: "db_systemConfig ?s1 ''theme'' = None"
    using updateSystemSettings_failed(2) [OF u, of sample_env "[''theme'' \<mapsto> TextValue ''dark'']"
            "new_DataHandler False empty_storage"]
    by (simp add: new_DataHandler_def empty_storage_def)
  have "isOnline (?s1\<lparr>isOnline := True\<rparr>)"
    and "\<forall>j<length (syncQueue (?s1\<lparr>isOnline := True\<rparr>)). \<exists>k\<le>maxRetries. all_reachable j k \<noteq> None"
    using all_reachable_ok by simp_all
  from processSyncQueue_all_ok [OF this, of sample_env]
  obtain P s3 where "processSyncQueue all_reachable sample_env (?s1\<lparr>isOnline := True\<rparr>) = Some (P, s3)"
    "syncQueue s3 = []" "db_systemConfig s3 = db_systemConfig (?s1\<lparr>isOnline := True\<rparr>)"
    by blast
  then show "\<exists>P s3. on_online all_reachable sample_env ?s1 = Some (P, s3)
      \<and> syncQueue s3 = []
      \<and> db_systemConfig s3 ''theme'' = None"
    using c by (simp add: on_online_def)
qed

section \<open>Properties of overlapping calls of processSyncQueue\<close>

lemma run_append: "run env (xs @ ys) r = run env ys (run env xs r)"
  by (induction xs arbitrary: r) simp_all

lemma rt_fetch_fields:
  "rt_fetched (rt_fetch b r) = rt_fetched r @ [request_of_item (rt_items r ! b)]"
  "rt_items (rt_fetch b r) = rt_items r"
  "rt_arrays (rt_fetch b r) = rt_arrays r"
  "rt_syncQueue (rt_fetch b r) = rt_syncQueue r"
  "rt_isOnline (rt_fetch b r) = rt_isOnline r"
  "rt_calls (rt_fetch b r) = rt_calls r"
  by (simp_all add: rt_fetch_def request_of_item_def request_of_def)

lemma rt_persist_fields:
  "rt_fetched (rt_persist r) = rt_fetched r"
  "rt_items (rt_persist r) = rt_items r"
  "rt_arrays (rt_persist r) = rt_arrays r"
  "rt_syncQueue (rt_persist r) = rt_syncQueue r"
  "rt_isOnline (rt_persist r) = rt_isOnline r"
  "rt_calls (rt_persist r) = rt_calls r"
  by (simp_all add: rt_persist_def)

lemma pass_runs_to_completion:
  assumes "n < length (rt_calls r)"
      and "\<not> returned (rt_calls r ! n)"
      and "iter_index (rt_calls r ! n) < length (rt_arrays r ! iter_array (rt_calls r ! n))"
      and "k = length (rt_arrays r ! iter_array (rt_calls r ! n)) - iter_index (rt_calls r ! n)"
  shows "rt_items (run env (replicate k (Settle n True)) r) = rt_items r
     \<and> rt_isOnline (run env (replicate k (Settle n True)) r) = rt_isOnline r
     \<and> rt_arrays (run env (replicate k (Settle n True)) r) =
         rt_arrays r @ [filter (\<lambda>b. item_id (rt_items r ! b) \<notin>
              set (processedItems (rt_calls r ! n)
                   @ map (\<lambda>b. item_id (rt_items r ! b))
                       (drop (iter_index (rt_calls r ! n)) (rt_arrays r ! iter_array (rt_calls r ! n)))))
              (rt_arrays r ! rt_syncQueue r)]
     \<and> rt_syncQueue (run env (replicate k (Settle n True)) r) = length (rt_arrays r)
     \<and> rt_fetched (run env (replicate k (Settle n True)) r) =
         rt_fetched r @ map (\<lambda>b. request_of_item (rt_items r ! b))
            (drop (iter_index (rt_calls r ! n) + 1) (rt_arrays r ! iter_array (rt_calls r ! n)))
     \<and> length (rt_calls (run env (replicate k (Settle n True)) r)) = length (rt_calls r)
     \<and> (\<forall>m<length (rt_calls r). m \<noteq> n \<longrightarrow>
           rt_calls (run env (replicate k (Settle n True)) r) ! m = rt_calls r ! m)
     \<and> returned (rt_calls (run env (replicate k (Settle n True)) r) ! n)
     \<and> processedItems (rt_calls (run env (replicate k (Settle n True)) r) ! n) =
         processedItems (rt_calls r ! n)
           @ map (\<lambda>b. item_id (rt_items r ! b))
               (drop (iter_index (rt_calls r ! n)) (rt_arrays r ! iter_array (rt_calls r ! n)))"
  using assms
proof (induction k arbitrary: r)
  case 0
  then show ?case by simp
next
  case (Suc k)
  let ?a = "rt_calls r ! n"
  let ?arr = "rt_arrays r ! iter_array ?a"
  let ?i = "iter_index ?a"
  have dr: "drop ?i ?arr = ?arr ! ?i # drop (?i + 1) ?arr"
    using Suc.prems(3) by (simp add: Cons_nth_drop_Suc)
  show ?case
  proof (cases "?i + 1 < length ?arr")
    case False
    with Suc.prems have last: "?i + 1 = length ?arr" and k: "k = 0"
      by simp_all
    then have d1: "drop (?i + 1) ?arr = []"
      by simp
    have st: "settle env n True r =
        rt_persist
          (r\<lparr>rt_arrays := rt_arrays r
                 @ [filter (\<lambda>b. item_id (rt_items r ! b) \<notin> set (processedItems ?a @ [item_id (rt_items r ! (?arr ! ?i))]))
                      (rt_arrays r ! rt_syncQueue r)],
             rt_syncQueue := length (rt_arrays r),
             rt_calls := (rt_calls r)[n := ?a\<lparr>processedItems := processedItems ?a @ [item_id (rt_items r ! (?arr ! ?i))],
                                             returned := True\<rparr>]\<rparr>)"
      using Suc.prems(1,2) last by (simp add: settle_def advance_def Let_def)
    show ?thesis
      using Suc.prems(1) dr d1
      by (simp add: k st rt_persist_fields)
  next
    case True
    let ?a1 = "?a\<lparr>processedItems := processedItems ?a @ [item_id (rt_items r ! (?arr ! ?i))],
                    iter_index := ?i + 1, attempt := 0\<rparr>"
    let ?r1 = "rt_fetch (?arr ! (?i + 1)) (r\<lparr>rt_calls := (rt_calls r)[n := ?a1]\<rparr>)"
    have st: "settle env n True r = ?r1"
      using Suc.prems(1,2) True by (simp add: settle_def advance_def Let_def)
    have c1: "rt_calls ?r1 ! n = ?a1" "length (rt_calls ?r1) = length (rt_calls r)"
      using Suc.prems(1) by (simp_all add: rt_fetch_fields)
    have p: "n < length (rt_calls ?r1)" "\<not> returned (rt_calls ?r1 ! n)"
      "iter_index (rt_calls ?r1 ! n) < length (rt_arrays ?r1 ! iter_array (rt_calls ?r1 ! n))"
      "k = length (rt_arrays ?r1 ! iter_array (rt_calls ?r1 ! n)) - iter_index (rt_calls ?r1 ! n)"
      using Suc.prems True by (simp_all add: rt_fetch_fields)
    note ih = Suc.IH [OF p]
    have d2: "drop (?i + 1) ?arr = ?arr ! (?i + 1) # drop (?i + 1 + 1) ?arr"
      using True by (simp add: Cons_nth_drop_Suc)
    show ?thesis
      using ih Suc.prems(1) dr d2
      by (simp add: st rt_fetch_fields nth_list_update) (rule filter_cong [OF refl], blast)
  qed
qed


lemma invoke_noop_iff:
  "invoke r = r \<longleftrightarrow> \<not> rt_isOnline r \<or> rt_arrays r ! rt_syncQueue r = []"
proof
  assume eq: "invoke r = r"
  show "\<not> rt_isOnline r \<or> rt_arrays r ! rt_syncQueue r = []"
  proof (rule ccontr)
    assume "\<not> (\<not> rt_isOnline r \<or> rt_arrays r ! rt_syncQueue r = [])"
    then have "length (rt_calls (invoke r)) = length (rt_calls r) + 1"
      by (simp add: invoke_def rt_fetch_fields)
    with eq show False
      by simp
  qed
next
  assume "\<not> rt_isOnline r \<or> rt_arrays r ! rt_syncQueue r = []"
  then show "invoke r = r"
    by (auto simp: invoke_def)
qed

text \<open>
  C1 (as the code has it). \<open>processSyncQueue\<close> has no flag for a pass in flight: a
  call returns at once, changing nothing, exactly when \<open>isOnline\<close> is false or the
  queue is empty. So from any state with a non-empty queue, whatever calls are
  already in flight, two \<open>online\<close> events in a row start two passes over the same
  queue. When every request succeeds, both passes run to their end, both report every
  item of the queue, and the request of every item is sent twice.
\<close>

theorem overlapping_drain_passes:
  assumes wf: "rt_syncQueue r < length (rt_arrays r)"
      and ne: "queue_items r \<noteq> []"
      and c: "c = length (rt_calls r)"
      and n: "n = length (queue_items r)"
      and r': "r' = run env ([Online, Online] @ replicate n (Settle c True)
                              @ replicate n (Settle (c + 1) True)) r"
  shows "length (rt_calls r') = c + 2
       \<and> returned (rt_calls r' ! c) \<and> returned (rt_calls r' ! (c + 1))
       \<and> processedItems (rt_calls r' ! c) = map item_id (queue_items r)
       \<and> processedItems (rt_calls r' ! (c + 1)) = map item_id (queue_items r)
       \<and> rt_fetched r' =
           rt_fetched r
             @ [request_of_item (hd (queue_items r)), request_of_item (hd (queue_items r))]
             @ map request_of_item (tl (queue_items r)) @ map request_of_item (tl (queue_items r))
       \<and> queue_items r' = []
       \<and> (invoke r0 = r0 \<longleftrightarrow> \<not> rt_isOnline r0 \<or> rt_arrays r0 ! rt_syncQueue r0 = [])"
proof -
  let ?A = "rt_syncQueue r"
  let ?q = "rt_arrays r ! ?A"
  let ?a0 = "\<lparr>iter_array = ?A, iter_index = 0, processedItems = [], attempt = 0, returned = False\<rparr>"
  from ne have q: "?q \<noteq> []" and len: "length ?q = n"
    by (simp_all add: queue_items_def n)
  then have pos: "0 < n" "0 < length ?q"
    by auto
  define r2 where "r2 = run env [Online, Online] r"
  define r3 where "r3 = run env (replicate n (Settle c True)) r2"
  have r'3: "r' = run env (replicate n (Settle (c + 1) True)) r3"
    by (simp only: r' r3_def r2_def run_append)
  have r2: "rt_calls r2 = rt_calls r @ [?a0, ?a0]" "rt_items r2 = rt_items r"
    "rt_arrays r2 = rt_arrays r" "rt_syncQueue r2 = ?A"
    "rt_fetched r2 = rt_fetched r @ [request_of_item (rt_items r ! (?q ! 0)),
                                      request_of_item (rt_items r ! (?q ! 0))]"
    using q by (simp_all add: r2_def invoke_def rt_fetch_fields)
  have pre3: "c < length (rt_calls r2)" "\<not> returned (rt_calls r2 ! c)"
    "iter_index (rt_calls r2 ! c) < length (rt_arrays r2 ! iter_array (rt_calls r2 ! c))"
    "n = length (rt_arrays r2 ! iter_array (rt_calls r2 ! c)) - iter_index (rt_calls r2 ! c)"
    using q len pos by (simp_all add: r2 c nth_append)
  note f3 = pass_runs_to_completion [OF pre3, of env, folded r3_def]
  have all_in: "filter (\<lambda>b. item_id (rt_items r ! b) \<notin> set (map (\<lambda>b. item_id (rt_items r ! b)) ?q)) ?q = []"
    by (simp add: filter_empty_conv)
  have r3: "rt_items r3 = rt_items r" "rt_arrays r3 = rt_arrays r @ [[]]"
    "rt_syncQueue r3 = length (rt_arrays r)"
    "rt_fetched r3 = rt_fetched r2 @ map (\<lambda>b. request_of_item (rt_items r ! b)) (drop 1 ?q)"
    "length (rt_calls r3) = c + 2" "rt_calls r3 ! (c + 1) = ?a0"
    "returned (rt_calls r3 ! c)"
    "processedItems (rt_calls r3 ! c) = map (\<lambda>b. item_id (rt_items r ! b)) ?q"
    using f3 all_in r2 by (simp_all add: c nth_append)
  have pre4: "c + 1 < length (rt_calls r3)" "\<not> returned (rt_calls r3 ! (c + 1))"
    "iter_index (rt_calls r3 ! (c + 1)) < length (rt_arrays r3 ! iter_array (rt_calls r3 ! (c + 1)))"
    "n = length (rt_arrays r3 ! iter_array (rt_calls r3 ! (c + 1))) - iter_index (rt_calls r3 ! (c + 1))"
    using q len pos wf r3 by (simp_all add: nth_append)
  note f4 = pass_runs_to_completion [OF pre4, of env, folded r'3]
  have r4: "rt_items r' = rt_items r"
    "rt_arrays r' = rt_arrays r @ [[], []]"
    "rt_syncQueue r' = length (rt_arrays r) + 1"
    "rt_fetched r' = rt_fetched r3 @ map (\<lambda>b. request_of_item (rt_items r ! b)) (drop 1 ?q)"
    "length (rt_calls r') = c + 2"
    "rt_calls r' ! c = rt_calls r3 ! c"
    "returned (rt_calls r' ! (c + 1))"
    "processedItems (rt_calls r' ! (c + 1)) = map (\<lambda>b. item_id (rt_items r ! b)) ?q"
    using f4 wf r3 by (simp_all add: nth_append)
  have hd_tl: "hd (queue_items r) = rt_items r ! (?q ! 0)"
    "map request_of_item (tl (queue_items r)) = map (\<lambda>b. request_of_item (rt_items r ! b)) (drop 1 ?q)"
    "map item_id (queue_items r) = map (\<lambda>b. item_id (rt_items r ! b)) ?q"
    using q by (simp_all add: queue_items_def hd_map hd_conv_nth map_tl drop_Suc comp_def)
  have empty: "queue_items r' = []"
    using r4 by (simp add: queue_items_def nth_append)
  show ?thesis
    using r4 r3 r2 empty hd_tl
    by (simp add: invoke_noop_iff)
qed


lemmas machine_defs =
  invoke_def settle_def advance_def rt_fetch_def rt_persist_def queue_items_def runtime_of_def
  rt_addToSyncQueue_def

text \<open>The theorem at a queue of three items with no call in flight.\<close>

theorem overlapping_drain_passes_witness:
  "map returned (rt_calls (run sample_env [Online, Online, Settle 0 True, Settle 0 True, Settle 0 True,
                                            Settle 1 True, Settle 1 True, Settle 1 True]
                             (runtime_of False sample_queue))) = [True, True]
   \<and> map processedItems (rt_calls (run sample_env [Online, Online, Settle 0 True, Settle 0 True, Settle 0 True,
                                            Settle 1 True, Settle 1 True, Settle 1 True]
                             (runtime_of False sample_queue))) = [[1, 2, 3], [1, 2, 3]]
   \<and> length (rt_fetched (run sample_env [Online, Online, Settle 0 True, Settle 0 True, Settle 0 True,
                                            Settle 1 True, Settle 1 True, Settle 1 True]
                             (runtime_of False sample_queue))) = 6"
proof -
  let ?r = "runtime_of False sample_queue"
  let ?r' = "run sample_env [Online, Online, Settle 0 True, Settle 0 True, Settle 0 True,
                             Settle 1 True, Settle 1 True, Settle 1 True] ?r"
  have q: "queue_items ?r = sample_queue"
    by (simp add: queue_items_def runtime_of_def sample_queue_def upt_rec)
  have h1: "rt_syncQueue ?r < length (rt_arrays ?r)"
    by (simp add: runtime_of_def)
  have h2: "queue_items ?r \<noteq> []"
    unfolding q by (simp add: sample_queue_def)
  have h3: "0 = length (rt_calls ?r)"
    by (simp add: runtime_of_def)
  have h4: "3 = length (queue_items ?r)"
    unfolding q by (simp add: sample_queue_def)
  have h5: "?r' = run sample_env ([Online, Online] @ replicate 3 (Settle 0 True)
                              @ replicate 3 (Settle (0 + 1) True)) ?r"
    by (simp add: numeral_3_eq_3)
  note t = overlapping_drain_passes [OF h1 h2 h3 h4 h5, unfolded q]
  from t have len: "length (rt_calls ?r') = 2"
    and ret: "returned (rt_calls ?r' ! 0)" "returned (rt_calls ?r' ! 1)"
    and pr: "processedItems (rt_calls ?r' ! 0) = [1, 2, 3]" "processedItems (rt_calls ?r' ! 1) = [1, 2, 3]"
    and f: "length (rt_fetched ?r') = 6"
    by (simp_all add: sample_queue_def runtime_of_def)
  from len obtain a b where ab: "rt_calls ?r' = [a, b]"
    by (auto simp: length_Suc_conv numeral_2_eq_2)
  from ret pr f show ?thesis
    unfolding ab by simp
qed


text \<open>
  C1 as stated fails: with one item queued, after two \<open>online\<close> events two calls are
  in flight; once both requests are answered both calls have run to their end, each
  has reported the item, and its request was sent twice.
\<close>

theorem two_online_events_counterexample:
  "map returned (rt_calls (run sample_env [Online, Online] (runtime_of False (take 1 sample_queue))))
     = [False, False]
   \<and> map returned (rt_calls (run sample_env [Online, Online, Settle 0 True, Settle 1 True]
                               (runtime_of False (take 1 sample_queue)))) = [True, True]
   \<and> map processedItems (rt_calls (run sample_env [Online, Online, Settle 0 True, Settle 1 True]
                               (runtime_of False (take 1 sample_queue)))) = [[1], [1]]
   \<and> rt_fetched (run sample_env [Online, Online, Settle 0 True, Settle 1 True]
                               (runtime_of False (take 1 sample_queue)))
       = [(gasUrl @ ''/goals/E100'', POST, Some (GoalsData [sample_goal])),
          (gasUrl @ ''/goals/E100'', POST, Some (GoalsData [sample_goal]))]"
  by (simp add: machine_defs sample_queue_def Let_def)

lemma first_pass_drops_run:
  "run sample_env first_pass_drops (runtime_of False sample_pair) =
     \<lparr>rt_isOnline = True,
      rt_items = [sample_queue ! 0, (sample_queue ! 2)\<lparr>retryCount := 3\<rparr>],
      rt_arrays = [[0, 1], []],
      rt_syncQueue = 1,
      rt_stored = Some [],
      rt_fetched = [request_of_item (sample_queue ! 0), request_of_item (sample_queue ! 0),
                    request_of_item (sample_queue ! 2), request_of_item (sample_queue ! 2),
                    request_of_item (sample_queue ! 2), request_of_item (sample_queue ! 2)],
      rt_clockReads = 0,
      rt_calls = [\<lparr>iter_array = 0, iter_index = 1, processedItems = [1, 3], attempt = 3, returned = True\<rparr>,
                  \<lparr>iter_array = 0, iter_index = 0, processedItems = [], attempt = 0, returned = False\<rparr>]\<rparr>"
  by (simp add: first_pass_drops_def sample_pair_def machine_defs sample_queue_def Let_def maxRetries_def
        request_of_item_def request_of_def)


text \<open>
  C4 as stated fails in three ways. With two passes in flight over a queue of two
  items: the first pass replays the first item, fails on the second until its
  \<open>retryCount\<close> is \<open>maxRetries\<close>, drops it and empties the queue; the second pass, when
  its first request is answered, sends the request of the dropped item again, and
  after four more failures the item's \<open>retryCount\<close> is 4. With the \<open>offline\<close> event
  during a pass over one item that has failed twice: when the last attempt fails,
  \<open>makeRequest\<close> enqueues the request again as a new item; the old item reaches
  \<open>maxRetries\<close> and is still in the queue, and the pass goes on with the new item and
  sends the request a fifth time. And in a single pass over two items that carry the
  same id, the success of the first removes the second, which has failed once.
\<close>

theorem retry_budget_counterexample:
  "queue_items (run sample_env first_pass_drops (runtime_of False sample_pair)) = []
   \<and> retryCount (rt_items (run sample_env first_pass_drops (runtime_of False sample_pair)) ! 1) = maxRetries
   \<and> rt_fetched (run sample_env (first_pass_drops @ [Settle 1 True]) (runtime_of False sample_pair))
       = rt_fetched (run sample_env first_pass_drops (runtime_of False sample_pair))
           @ [(gasUrl @ ''/system/settings'', POST, Some (ConfigData [''theme'' \<mapsto> TextValue ''dark'']))]
   \<and> retryCount (rt_items (run sample_env (first_pass_drops @ second_pass_retries)
                                (runtime_of False sample_pair)) ! 1) = 4
   \<and> map retryCount (queue_items (run sample_env offline_during_pass (runtime_of False [sample_queue ! 2])))
       = [maxRetries, 0]
   \<and> map returned (rt_calls (run sample_env offline_during_pass (runtime_of False [sample_queue ! 2])))
       = [False]
   \<and> rt_fetched (run sample_env offline_during_pass (runtime_of False [sample_queue ! 2]))
       = replicate 5 (request_of_item (sample_queue ! 2))
   \<and> (\<exists>P s'. processSyncQueue sample_replies sample_env
                  ((new_DataHandler True empty_storage)\<lparr>syncQueue := sample_twins\<rparr>) = Some (P, s')
          \<and> retryCount (sample_twins ! 1) = 0 \<and> (\<forall>k\<le>maxRetries. sample_replies 1 k = None)
          \<and> syncQueue s' = [])"
proof (intro conjI)
  show "queue_items (run sample_env first_pass_drops (runtime_of False sample_pair)) = []"
    by (simp add: first_pass_drops_run queue_items_def)
  show "retryCount (rt_items (run sample_env first_pass_drops (runtime_of False sample_pair)) ! 1) = maxRetries"
    by (simp add: first_pass_drops_run maxRetries_def)
  show "rt_fetched (run sample_env (first_pass_drops @ [Settle 1 True]) (runtime_of False sample_pair))
       = rt_fetched (run sample_env first_pass_drops (runtime_of False sample_pair))
           @ [(gasUrl @ ''/system/settings'', POST, Some (ConfigData [''theme'' \<mapsto> TextValue ''dark'']))]"
    unfolding run_append first_pass_drops_run
    by (simp add: machine_defs sample_queue_def Let_def request_of_item_def request_of_def)
  show "retryCount (rt_items (run sample_env (first_pass_drops @ second_pass_retries)
                                (runtime_of False sample_pair)) ! 1) = 4"
    unfolding run_append first_pass_drops_run
    by (simp add: second_pass_retries_def machine_defs sample_queue_def Let_def maxRetries_def)
  show "map retryCount (queue_items (run sample_env offline_during_pass (runtime_of False [sample_queue ! 2])))
       = [maxRetries, 0]"
    by (simp add: offline_during_pass_def machine_defs sample_queue_def Let_def maxRetries_def)
  show "map returned (rt_calls (run sample_env offline_during_pass (runtime_of False [sample_queue ! 2])))
       = [False]"
    by (simp add: offline_during_pass_def machine_defs sample_queue_def Let_def maxRetries_def)
  show "rt_fetched (run sample_env offline_during_pass (runtime_of False [sample_queue ! 2]))
       = replicate 5 (request_of_item (sample_queue ! 2))"
    by (simp add: offline_during_pass_def machine_defs sample_queue_def Let_def maxRetries_def
          request_of_item_def request_of_def numeral_eq_Suc)
  show "\<exists>P s'. processSyncQueue sample_replies sample_env
                  ((new_DataHandler True empty_storage)\<lparr>syncQueue := sample_twins\<rparr>) = Some (P, s')
          \<and> retryCount (sample_twins ! 1) = 0 \<and> (\<forall>k\<le>maxRetries. sample_replies 1 k = None)
          \<and> syncQueue s' = []"
    using processSyncQueue_online [of "(new_DataHandler True empty_storage)\<lparr>syncQueue := sample_twins\<rparr>"
            sample_replies sample_env]
    by (simp add: new_DataHandler_def sample_twins_def sample_queue_def sample_replies_outcome
          saveLocalData_syncQueue_def sample_replies_def)
qed

section \<open>Properties of the login lockout\<close>

lemma handleLoginFailure_effects:
  "loginAttempts (fst (handleLoginFailure clk (a, s))) = loginAttempts a + 1"
  "fetched (snd (handleLoginFailure clk (a, s))) = fetched s"
  "pms_account_lock (localStorage (snd (handleLoginFailure clk (a, s)))) =
     (if maxLoginAttempts \<le> loginAttempts a + 1
      then Some \<lparr>lock_timestamp = at_lockAccount clk, lock_attempts = loginAttempts a + 1\<rparr>
      else pms_account_lock (localStorage s))"
  by (simp_all add: handleLoginFailure_def logActivity_def lockAccount_def Let_def)

lemma login_locked:
  assumes "isAccountLocked (at_isAccountLocked clk) s"
  shows "login net env clk employeeCode (a, s) = (Inl AccountLocked, handleLoginFailure clk (a, s))"
  using assms by (simp add: login_def Let_def split: prod.split)

lemma authenticateUser_throws: "isl (fst (authenticateUser net env employeeCode s))"
  by (simp add: authenticateUser_def mr_unfold setLocalData_def split: option.split property.split)

lemma authenticateUser_lock:
  "pms_account_lock (localStorage (snd (authenticateUser net env employeeCode s)))
     = pms_account_lock (localStorage s)"
  by (simp add: authenticateUser_def mr_unfold setLocalData_def setAuthToken_def
        split: option.split property.split)

lemma login_throws: "isl (fst (login net env clk employeeCode as))"
proof -
  obtain a s where as: "as = (a, s)"
    by (cases as)
  obtain r s1 where au: "authenticateUser net env employeeCode s = (r, s1)"
    by (cases "authenticateUser net env employeeCode s")
  with authenticateUser_throws [of net env employeeCode s] obtain e where "r = Inl e"
    by (cases r) simp_all
  with au show ?thesis
    by (simp add: login_def as Let_def split: prod.split)
qed

lemma login_failed_effects:
  shows "loginAttempts (fst (snd (login net env clk employeeCode (a, s)))) = loginAttempts a + 1"
    and "pms_account_lock (localStorage (snd (snd (login net env clk employeeCode (a, s))))) =
          (if maxLoginAttempts \<le> loginAttempts a + 1
           then Some \<lparr>lock_timestamp = at_lockAccount clk, lock_attempts = loginAttempts a + 1\<rparr>
           else pms_account_lock (localStorage s))"
proof -
  have lock: "pms_account_lock (localStorage (snd (authenticateUser net env employeeCode s)))
     = pms_account_lock (localStorage s)"
    by (rule authenticateUser_lock)
  obtain r s1 where au: "authenticateUser net env employeeCode s = (r, s1)"
    by (cases "authenticateUser net env employeeCode s")
  with authenticateUser_throws [of net env employeeCode s] obtain e where r: "r = Inl e"
    by (cases r) simp_all
  show "loginAttempts (fst (snd (login net env clk employeeCode (a, s)))) = loginAttempts a + 1"
    by (simp add: login_def Let_def au r handleLoginFailure_effects split: prod.split)
  from lock show "pms_account_lock (localStorage (snd (snd (login net env clk employeeCode (a, s))))) =
          (if maxLoginAttempts \<le> loginAttempts a + 1
           then Some \<lparr>lock_timestamp = at_lockAccount clk, lock_attempts = loginAttempts a + 1\<rparr>
           else pms_account_lock (localStorage s))"
    by (simp add: login_def Let_def au r handleLoginFailure_effects split: prod.split)
qed

lemma logins_append:
  "logins (xs @ ys) as =
     (case logins xs as of (rs1, as1) \<Rightarrow> (case logins ys as1 of (rs2, as2) \<Rightarrow> (rs1 @ rs2, as2)))"
  by (induction xs arbitrary: as) (auto split: prod.splits)

lemma logins_attempts:
  assumes "logins attempts as = (rs, as')"
  shows "loginAttempts (fst as') = loginAttempts (fst as) + length attempts"
  using assms
proof (induction attempts arbitrary: as rs)
  case Nil
  then show ?case by simp
next
  case (Cons x xs)
  obtain net env clk code where x: "x = (net, env, clk, code)"
    by (cases x)
  obtain a s where as: "as = (a, s)"
    by (cases as)
  obtain r as1 where l: "login net env clk code (a, s) = (r, as1)"
    by (cases "login net env clk code (a, s)")
  obtain rs1 where rest: "logins xs as1 = (rs1, as')"
    using Cons.prems(1) by (auto simp: x as l split: prod.splits)
  from l have "loginAttempts (fst as1) = loginAttempts a + 1"
    using login_failed_effects(1) [of net env clk code a s] by simp
  with Cons.IH [OF rest] show ?case
    by (simp add: as)
qed

lemma five_failures_lock:
  assumes len: "length attempts = 5"
      and run: "logins attempts as0 = (rs, as5)"
      and lst: "last attempts = (net5, env5, clk5, code5)"
  shows "pms_account_lock (localStorage (snd as5)) =
           Some \<lparr>lock_timestamp = at_lockAccount clk5, lock_attempts = loginAttempts (fst as0) + 5\<rparr>"
proof -
  from len have ne: "attempts \<noteq> []"
    by auto
  then have split: "attempts = butlast attempts @ [(net5, env5, clk5, code5)]"
    using lst by (metis append_butlast_last_id)
  obtain rs4 as4 where four: "logins (butlast attempts) as0 = (rs4, as4)"
    by (cases "logins (butlast attempts) as0")
  obtain a4 s4 where as4: "as4 = (a4, s4)"
    by (cases as4)
  obtain r5 as5' where fifth: "login net5 env5 clk5 code5 (a4, s4) = (r5, as5')"
    by (cases "login net5 env5 clk5 code5 (a4, s4)")
  have "logins attempts as0 = (rs4 @ [r5], as5')"
    by (subst split, subst logins_append) (simp add: four as4 fifth)
  with run have as5: "as5 = as5'"
    by simp
  have "loginAttempts a4 = loginAttempts (fst as0) + 4"
    using logins_attempts [OF four] len by (simp add: as4)
  with fifth show ?thesis
    using login_failed_effects(2) [of net5 env5 clk5 code5 a4 s4]
    by (simp add: as5 maxLoginAttempts_def)
qed

lemma locked_attempts_rejected:
  assumes "pms_account_lock (localStorage (snd as)) = Some lock"
      and "T \<le> lock_timestamp lock"
      and "\<forall>x\<in>set later. case x of (net, env, clk, code) \<Rightarrow>
             at_isAccountLocked clk - T < lockoutDuration \<and> T \<le> at_lockAccount clk"
      and "logins later as = (rs, as')"
  shows "(\<forall>r\<in>set rs. r = Inl AccountLocked) \<and> length rs = length later
         \<and> fetched (snd as') = fetched (snd as)"
  using assms
proof (induction later arbitrary: as rs lock)
  case Nil
  then show ?case by simp
next
  case (Cons x xs)
  obtain net env clk code where x: "x = (net, env, clk, code)"
    by (cases x)
  obtain a s where as: "as = (a, s)"
    by (cases as)
  from Cons.prems(3) x have t1: "at_isAccountLocked clk - T < lockoutDuration"
    and t2: "T \<le> at_lockAccount clk"
    by simp_all
  from Cons.prems(1,2) t1 have locked: "isAccountLocked (at_isAccountLocked clk) s"
    by (simp add: isAccountLocked_def as)
  have l: "login net env clk code (a, s) = (Inl AccountLocked, handleLoginFailure clk (a, s))"
    by (rule login_locked [OF locked])
  obtain rs1 where rest: "logins xs (handleLoginFailure clk (a, s)) = (rs1, as')"
    and rs: "rs = Inl AccountLocked # rs1"
    using Cons.prems(4) by (auto simp: x as l split: prod.splits)
  obtain lock' where lock': "pms_account_lock (localStorage (snd (handleLoginFailure clk (a, s)))) = Some lock'"
    and T': "T \<le> lock_timestamp lock'"
    using Cons.prems(1,2) t2 by (cases "maxLoginAttempts \<le> loginAttempts a + 1")
      (simp_all add: handleLoginFailure_effects(3) as)
  from Cons.prems(3) have later: "\<forall>x\<in>set xs. case x of (net, env, clk, code) \<Rightarrow>
             at_isAccountLocked clk - T < lockoutDuration \<and> T \<le> at_lockAccount clk"
    by simp
  from Cons.IH [OF lock' T' later rest] show ?case
    by (simp add: rs as handleLoginFailure_effects(2))
qed

text \<open>
  C8 (as the code has it). \<open>loginAttempts\<close> is a field of the \<open>AuthManager\<close> instance.
  After five \<open>login\<close> calls in a row on one instance that all fail, the lock marker
  carries the time of the fifth failure. Every later call whose lock check reads a
  time less than \<open>lockoutDuration\<close> (15 minutes) after that time is rejected with the
  lockout error, whatever the employee code and whatever the server would answer, and
  the list of \<open>fetch\<close> calls does not grow: no request is made. (The clock is taken
  not to run behind the time of the fifth failure.)
\<close>

theorem lockout_after_five_failed_logins:
  assumes "length attempts = 5"
      and "logins attempts as0 = (rs, as5)"
      and "\<forall>r\<in>set rs. isl r"
      and "last attempts = (net5, env5, clk5, code5)"
      and "\<forall>x\<in>set later. case x of (net, env, clk, code) \<Rightarrow>
             at_isAccountLocked clk - at_lockAccount clk5 < lockoutDuration
             \<and> at_lockAccount clk5 \<le> at_lockAccount clk"
      and "logins later as5 = (rs', as')"
  shows "pms_account_lock (localStorage (snd as5)) =
           Some \<lparr>lock_timestamp = at_lockAccount clk5, lock_attempts = loginAttempts (fst as0) + 5\<rparr>
         \<and> (\<forall>r\<in>set rs'. r = Inl AccountLocked) \<and> length rs' = length later
         \<and> fetched (snd as') = fetched (snd as5)"
proof -
  have lock: "pms_account_lock (localStorage (snd as5)) =
           Some \<lparr>lock_timestamp = at_lockAccount clk5, lock_attempts = loginAttempts (fst as0) + 5\<rparr>"
    by (rule five_failures_lock [OF assms(1,2,4)])
  have "at_lockAccount clk5 \<le> lock_timestamp \<lparr>lock_timestamp = at_lockAccount clk5, lock_attempts = loginAttempts (fst as0) + 5\<rparr>"
    by simp
  from locked_attempts_rejected [OF lock this assms(5,6)] lock show ?thesis
    by simp
qed

lemma validate_samples: "validateEmployeeCode ''E1001''" "\<not> validateEmployeeCode ''no''"
  by (simp_all add: validateEmployeeCode_def trim_def is_space_def is_alnum_def Let_def)

lemma unreachable_attempts: "rc \<le> maxRetries \<Longrightarrow> request_attempts unreachable rc = maxRetries - rc + 1"
proof (induction "unreachable :: nat \<Rightarrow> 'a option" rc rule: request_attempts.induct)
  case (1 rc)
  show ?case
  proof (cases "rc < maxRetries")
    case True
    with 1(1) [OF _ True] show ?thesis
      by (subst request_attempts.simps) (simp add: unreachable_def)
  next
    case False
    with 1(2) show ?thesis
      by (subst request_attempts.simps) (simp add: unreachable_def)
  qed
qed

lemma handleLoginFailure_frame:
  "isOnline (snd (handleLoginFailure clk as)) = isOnline (snd as)"
  "db_employees (snd (handleLoginFailure clk as)) = db_employees (snd as)"
  "syncQueue (snd (handleLoginFailure clk as)) = syncQueue (snd as)"
  "fetched (snd (handleLoginFailure clk as)) = fetched (snd as)"
  "loginAttempts (fst (handleLoginFailure clk as)) = loginAttempts (fst as) + 1"
  "pms_account_lock (localStorage (snd (handleLoginFailure clk as))) =
     (if maxLoginAttempts \<le> loginAttempts (fst as) + 1
      then Some \<lparr>lock_timestamp = at_lockAccount clk, lock_attempts = loginAttempts (fst as) + 1\<rparr>
      else pms_account_lock (localStorage (snd as)))"
  "pms_employees (localStorage (snd (handleLoginFailure clk as))) = pms_employees (localStorage (snd as))"
  "pms_current_user (localStorage (snd (handleLoginFailure clk as))) = pms_current_user (localStorage (snd as))"
  by (cases as; simp add: handleLoginFailure_def logActivity_def lockAccount_def Let_def)+

lemma login_locked_run:
  "isAccountLocked (at_isAccountLocked clk) (snd as) \<Longrightarrow>
     login net env clk employeeCode as = (Inl AccountLocked, handleLoginFailure clk as)"
  by (cases as) (simp add: login_locked)

lemma login_invalid_run:
  "pms_account_lock (localStorage (snd as)) = None \<Longrightarrow> \<not> validateEmployeeCode employeeCode \<Longrightarrow>
     login net env clk employeeCode as = (Inl InvalidEmployeeCode, handleLoginFailure clk as)"
  by (cases as) (simp add: login_def isAccountLocked_def Let_def split: prod.split)

lemma login_unreachable_run:
  assumes "pms_account_lock (localStorage (snd as)) = None"
      and "validateEmployeeCode employeeCode"
      and "get_property (db_employees (snd as)) employeeCode = Undefined"
      and "isOnline (snd as)"
  shows "login unreachable env clk employeeCode as =
           (Inl RequestFailed,
            handleLoginFailure clk
              (fst as, (snd as)\<lparr>fetched := fetched (snd as) @ replicate 4
                  (request_of endpoints_auth POST (ObjectData [''employeeCode'' \<mapsto> employeeCode]))\<rparr>))"
proof -
  obtain a s where as: "as = (a, s)"
    by (cases as)
  have au: "authenticateUser unreachable env employeeCode s =
          (Inl RequestFailed, s\<lparr>fetched := fetched s @ replicate 4
                  (request_of endpoints_auth POST (ObjectData [''employeeCode'' \<mapsto> employeeCode]))\<rparr>)"
    using assms(3,4)
    by (simp add: authenticateUser_def mr_unfold unreachable_attempts as maxRetries_def)
  from assms(1,2) show ?thesis
    by (simp add: login_def isAccountLocked_def as au)
qed

text \<open>A request that the server accepts at once: the login still fails, in \<open>setLocalData\<close>.\<close>

lemma login_accepted_run:
  assumes "pms_account_lock (localStorage (snd as)) = None"
      and "validateEmployeeCode employeeCode"
      and "get_property (db_employees (snd as)) employeeCode = Undefined"
      and "net 0 = Some response" and "success response"
  shows "login net env clk employeeCode as =
           (Inl TypeError,
            handleLoginFailure clk
              (fst as, setAuthToken (token response)
                  ((snd as)\<lparr>fetched := fetched (snd as) @
                     [request_of endpoints_auth POST (ObjectData [''employeeCode'' \<mapsto> employeeCode])]\<rparr>)))"
proof -
  obtain a s where as: "as = (a, s)"
    by (cases as)
  have out: "request_outcome net 0 = Some response"
    using assms(4) by (subst request_outcome.simps) simp
  have att: "request_attempts net 0 = 1"
    using assms(4) by (subst request_attempts.simps) simp
  have au: "authenticateUser net env employeeCode s =
          (Inl TypeError, setAuthToken (token response)
             (s\<lparr>fetched := fetched s @
                  [request_of endpoints_auth POST (ObjectData [''employeeCode'' \<mapsto> employeeCode])]\<rparr>))"
    using assms(3,5)
    by (simp add: authenticateUser_def mr_unfold out att as setLocalData_def setAuthToken_def)
  from assms(1,2) show ?thesis
    by (simp add: login_def isAccountLocked_def as au)
qed

lemma logins_Cons_fst_snd:
  "fst (logins ((net, env, clk, code) # rest) as) =
     fst (login net env clk code as) # fst (logins rest (snd (login net env clk code as)))"
  "snd (logins ((net, env, clk, code) # rest) as) = snd (logins rest (snd (login net env clk code as)))"
  by (simp_all split: prod.split)

lemma login_unreachable_step:
  assumes "pms_account_lock (localStorage (snd as)) = None"
      and "validateEmployeeCode employeeCode"
      and "get_property (db_employees (snd as)) employeeCode = Undefined"
      and "isOnline (snd as)"
  shows "fst (login unreachable env clk employeeCode as) = Inl RequestFailed"
    and "loginAttempts (fst (snd (login unreachable env clk employeeCode as))) = loginAttempts (fst as) + 1"
    and "pms_account_lock (localStorage (snd (snd (login unreachable env clk employeeCode as)))) =
          (if maxLoginAttempts \<le> loginAttempts (fst as) + 1
           then Some \<lparr>lock_timestamp = at_lockAccount clk, lock_attempts = loginAttempts (fst as) + 1\<rparr>
           else None)"
    and "db_employees (snd (snd (login unreachable env clk employeeCode as))) = db_employees (snd as)"
    and "isOnline (snd (snd (login unreachable env clk employeeCode as)))"
    and "pms_employees (localStorage (snd (snd (login unreachable env clk employeeCode as))))
           = pms_employees (localStorage (snd as))"
    and "pms_current_user (localStorage (snd (snd (login unreachable env clk employeeCode as))))
           = pms_current_user (localStorage (snd as))"
    and "fetched (snd (snd (login unreachable env clk employeeCode as))) = fetched (snd as) @ replicate 4
                  (request_of endpoints_auth POST (ObjectData [''employeeCode'' \<mapsto> employeeCode]))"
  using assms by (simp_all add: login_unreachable_run [OF assms] handleLoginFailure_frame)

lemma login_invalid_step:
  assumes "pms_account_lock (localStorage (snd as)) = None"
      and "\<not> validateEmployeeCode employeeCode"
  shows "fst (login net env clk employeeCode as) = Inl InvalidEmployeeCode"
    and "loginAttempts (fst (snd (login net env clk employeeCode as))) = loginAttempts (fst as) + 1"
    and "pms_account_lock (localStorage (snd (snd (login net env clk employeeCode as)))) =
          (if maxLoginAttempts \<le> loginAttempts (fst as) + 1
           then Some \<lparr>lock_timestamp = at_lockAccount clk, lock_attempts = loginAttempts (fst as) + 1\<rparr>
           else None)"
    and "db_employees (snd (snd (login net env clk employeeCode as))) = db_employees (snd as)"
    and "isOnline (snd (snd (login net env clk employeeCode as))) = isOnline (snd as)"
    and "pms_employees (localStorage (snd (snd (login net env clk employeeCode as))))
           = pms_employees (localStorage (snd as))"
    and "pms_current_user (localStorage (snd (snd (login net env clk employeeCode as))))
           = pms_current_user (localStorage (snd as))"
  using assms by (simp_all add: login_invalid_run [OF assms] handleLoginFailure_frame)

lemma login_accepted_step:
  assumes "pms_account_lock (localStorage (snd as)) = None"
      and "validateEmployeeCode employeeCode"
      and "get_property (db_employees (snd as)) employeeCode = Undefined"
      and "net 0 = Some response" and "success response"
  shows "fst (login net env clk employeeCode as) = Inl TypeError"
    and "pms_account_lock (localStorage (snd (snd (login net env clk employeeCode as)))) =
          (if maxLoginAttempts \<le> loginAttempts (fst as) + 1
           then Some \<lparr>lock_timestamp = at_lockAccount clk, lock_attempts = loginAttempts (fst as) + 1\<rparr>
           else None)"
    and "fetched (snd (snd (login net env clk employeeCode as))) = fetched (snd as) @
           [request_of endpoints_auth POST (ObjectData [''employeeCode'' \<mapsto> employeeCode])]"
  using assms(1)
  by (simp_all add: login_accepted_run [where net = net and response = response, OF assms]
        handleLoginFailure_frame setAuthToken_def)

lemma undefined_E1001: "db_employees s ''E1001'' = None \<Longrightarrow> get_property (db_employees s) ''E1001'' = Undefined"
  by (simp add: get_property_def Object_prototype_def)

lemma page_load_empty:
  assumes "pms_employees ls = None" and "pms_current_user ls = None"
  shows "pms_account_lock (localStorage (snd (page_load online now ls))) = pms_account_lock ls"
    and "db_employees (snd (page_load online now ls)) ''E1001'' = None"
    and "isOnline (snd (page_load online now ls)) = online"
    and "loginAttempts (fst (page_load online now ls)) = 0"
    and "pms_employees (localStorage (snd (page_load online now ls))) = None"
    and "pms_current_user (localStorage (snd (page_load online now ls))) = None"
    and "fetched (snd (page_load online now ls)) = []"
  using assms
  by (simp_all add: page_load_def new_AuthManager_def checkExistingSession_def clearSession_def
        new_DataHandler_def split: option.split)

lemma four_failed_attempts_run:
  "fst (logins (take 4 five_failed_attempts) (page_load True 0 empty_storage))
     = [Inl RequestFailed, Inl RequestFailed, Inl InvalidEmployeeCode, Inl RequestFailed]"
  "pms_account_lock (localStorage (snd (snd (logins (take 4 five_failed_attempts) (page_load True 0 empty_storage))))) = None"
  "db_employees (snd (snd (logins (take 4 five_failed_attempts) (page_load True 0 empty_storage)))) ''E1001'' = None"
  "isOnline (snd (snd (logins (take 4 five_failed_attempts) (page_load True 0 empty_storage))))"
  "loginAttempts (fst (snd (logins (take 4 five_failed_attempts) (page_load True 0 empty_storage)))) = 4"
  "pms_employees (localStorage (snd (snd (logins (take 4 five_failed_attempts) (page_load True 0 empty_storage))))) = None"
  "pms_current_user (localStorage (snd (snd (logins (take 4 five_failed_attempts) (page_load True 0 empty_storage))))) = None"
proof -
  define as0 where "as0 = page_load True 0 empty_storage"
  define as1 where "as1 = snd (login unreachable sample_env (sample_clock 1000) ''E1001'' as0)"
  define as2 where "as2 = snd (login unreachable sample_env (sample_clock 2000) ''E1001'' as1)"
  define as3 where "as3 = snd (login unreachable sample_env (sample_clock 3000) ''no'' as2)"
  define as4 where "as4 = snd (login unreachable sample_env (sample_clock 4000) ''E1001'' as3)"
  have e: "pms_employees empty_storage = None" "pms_current_user empty_storage = None"
    "pms_account_lock empty_storage = None"
    by (simp_all add: empty_storage_def)
  have p0: "pms_account_lock (localStorage (snd as0)) = None" "db_employees (snd as0) ''E1001'' = None"
    "isOnline (snd as0)" "loginAttempts (fst as0) = 0"
    "pms_employees (localStorage (snd as0)) = None" "pms_current_user (localStorage (snd as0)) = None"
    using page_load_empty [OF e(1,2), of True 0] by (simp_all add: as0_def e(3))
  note v = validate_samples
  note s1 = login_unreachable_step [OF p0(1) v(1) undefined_E1001 [OF p0(2)] p0(3), of sample_env "sample_clock 1000", folded as1_def]
  have p1: "pms_account_lock (localStorage (snd as1)) = None" "db_employees (snd as1) ''E1001'' = None"
    "isOnline (snd as1)" "loginAttempts (fst as1) = 1"
    "pms_employees (localStorage (snd as1)) = None" "pms_current_user (localStorage (snd as1)) = None"
    using s1 p0 by (simp_all add: maxLoginAttempts_def)
  note s2 = login_unreachable_step [OF p1(1) v(1) undefined_E1001 [OF p1(2)] p1(3), of sample_env "sample_clock 2000", folded as2_def]
  have p2: "pms_account_lock (localStorage (snd as2)) = None" "db_employees (snd as2) ''E1001'' = None"
    "isOnline (snd as2)" "loginAttempts (fst as2) = 2"
    "pms_employees (localStorage (snd as2)) = None" "pms_current_user (localStorage (snd as2)) = None"
    using s2 p1 by (simp_all add: maxLoginAttempts_def)
  note s3 = login_invalid_step [OF p2(1) v(2), of unreachable sample_env "sample_clock 3000", folded as3_def]
  have p3: "pms_account_lock (localStorage (snd as3)) = None" "db_employees (snd as3) ''E1001'' = None"
    "isOnline (snd as3)" "loginAttempts (fst as3) = 3"
    "pms_employees (localStorage (snd as3)) = None" "pms_current_user (localStorage (snd as3)) = None"
    using s3 p2 by (simp_all add: maxLoginAttempts_def)
  note s4 = login_unreachable_step [OF p3(1) v(1) undefined_E1001 [OF p3(2)] p3(3), of sample_env "sample_clock 4000", folded as4_def]
  have p4: "pms_account_lock (localStorage (snd as4)) = None" "db_employees (snd as4) ''E1001'' = None"
    "isOnline (snd as4)" "loginAttempts (fst as4) = 4"
    "pms_employees (localStorage (snd as4)) = None" "pms_current_user (localStorage (snd as4)) = None"
    using s4 p3 by (simp_all add: maxLoginAttempts_def)
  have t: "take 4 five_failed_attempts =
     [(unreachable, sample_env, sample_clock 1000, ''E1001''),
      (unreachable, sample_env, sample_clock 2000, ''E1001''),
      (unreachable, sample_env, sample_clock 3000, ''no''),
      (unreachable, sample_env, sample_clock 4000, ''E1001'')]"
    by (simp add: five_failed_attempts_def)
  have run: "snd (logins (take 4 five_failed_attempts) as0) = as4"
    unfolding t logins_Cons_fst_snd
    by (simp add: as1_def [symmetric] as2_def [symmetric] as3_def [symmetric] as4_def [symmetric])
  show "fst (logins (take 4 five_failed_attempts) (page_load True 0 empty_storage))
     = [Inl RequestFailed, Inl RequestFailed, Inl InvalidEmployeeCode, Inl RequestFailed]"
    unfolding t logins_Cons_fst_snd as0_def [symmetric]
    by (simp add: s1(1) s2(1) s3(1) s4(1) as1_def [symmetric] as2_def [symmetric] as3_def [symmetric])
  show "pms_account_lock (localStorage (snd (snd (logins (take 4 five_failed_attempts) (page_load True 0 empty_storage))))) = None"
    "db_employees (snd (snd (logins (take 4 five_failed_attempts) (page_load True 0 empty_storage)))) ''E1001'' = None"
    "isOnline (snd (snd (logins (take 4 five_failed_attempts) (page_load True 0 empty_storage))))"
    "loginAttempts (fst (snd (logins (take 4 five_failed_attempts) (page_load True 0 empty_storage)))) = 4"
    "pms_employees (localStorage (snd (snd (logins (take 4 five_failed_attempts) (page_load True 0 empty_storage))))) = None"
    "pms_current_user (localStorage (snd (snd (logins (take 4 five_failed_attempts) (page_load True 0 empty_storage))))) = None"
    unfolding as0_def [symmetric] run by (rule p4)+
qed

lemma five_failed_attempts_split:
  "five_failed_attempts = take 4 five_failed_attempts @ [(unreachable, sample_env, sample_clock 5000, ''E1001'')]"
  by (simp add: five_failed_attempts_def)

lemma five_failed_attempts_run:
  "fst (logins five_failed_attempts (page_load True 0 empty_storage))
     = [Inl RequestFailed, Inl RequestFailed, Inl InvalidEmployeeCode, Inl RequestFailed, Inl RequestFailed]"
proof -
  let ?as4 = "snd (logins (take 4 five_failed_attempts) (page_load True 0 empty_storage))"
  note p4 = four_failed_attempts_run
  note s5 = login_unreachable_step [OF p4(2) validate_samples(1) undefined_E1001 [OF p4(3)] p4(4),
              of sample_env "sample_clock 5000"]
  have "fst (logins five_failed_attempts (page_load True 0 empty_storage)) =
          fst (logins (take 4 five_failed_attempts) (page_load True 0 empty_storage))
            @ [fst (login unreachable sample_env (sample_clock 5000) ''E1001'' ?as4)]"
    by (subst five_failed_attempts_split, subst logins_append) (simp add: prod.case_eq_if)
  then show ?thesis
    by (simp add: p4(1) s5(1))
qed

text \<open>
  The theorem at a new instance: four failed requests and one malformed code, then a
  valid code that the server would accept one second later, and one more attempt just
  before the fifteen minutes are over.
\<close>

theorem lockout_after_five_failed_logins_witness:
  "fst (logins five_failed_attempts (page_load True 0 empty_storage))
     = [Inl RequestFailed, Inl RequestFailed, Inl InvalidEmployeeCode, Inl RequestFailed, Inl RequestFailed]
   \<and> validateEmployeeCode ''E1001''
   \<and> fst (logins locked_attempts
        (snd (logins five_failed_attempts (page_load True 0 empty_storage))))
       = [Inl AccountLocked, Inl AccountLocked]
   \<and> fetched (snd (snd (logins locked_attempts
        (snd (logins five_failed_attempts (page_load True 0 empty_storage))))))
       = fetched (snd (snd (logins five_failed_attempts (page_load True 0 empty_storage))))"
proof -
  let ?as0 = "(page_load True 0 empty_storage)"
  let ?run = "logins five_failed_attempts ?as0"
  let ?after = "logins locked_attempts (snd ?run)"
  have h1: "length five_failed_attempts = 5"
    by (simp add: five_failed_attempts_def)
  have h2: "?run = (fst ?run, snd ?run)"
    by simp
  have h3: "\<forall>r\<in>set (fst ?run). isl r"
    by (simp add: five_failed_attempts_run)
  have h4: "last five_failed_attempts = (unreachable, sample_env, sample_clock 5000, ''E1001'')"
    by (simp add: five_failed_attempts_def)
  have h5: "\<forall>x\<in>set locked_attempts. case x of (net, env, clk, code) \<Rightarrow>
             at_isAccountLocked clk - at_lockAccount (sample_clock 5000) < lockoutDuration
             \<and> at_lockAccount (sample_clock 5000) \<le> at_lockAccount clk"
    by (simp add: locked_attempts_def sample_clock_def lockoutDuration_def)
  have h6: "?after = (fst ?after, snd ?after)"
    by simp
  from lockout_after_five_failed_logins [OF h1 h2 h3 h4 h5 h6]
  have all: "\<forall>r\<in>set (fst ?after). r = Inl AccountLocked"
    and len: "length (fst ?after) = length locked_attempts"
    and net: "fetched (snd (snd ?after)) = fetched (snd (snd ?run))"
    by simp_all
  from all have "replicate (length (fst ?after)) (Inl AccountLocked) = fst ?after"
    by (rule replicate_length_same)
  with len have "fst ?after = [Inl AccountLocked, Inl AccountLocked]"
    by (simp add: locked_attempts_def numeral_2_eq_2)
  with net show ?thesis
    by (simp add: five_failed_attempts_run validate_samples)
qed

text \<open>
  C8 as stated fails: of five failed logins in one browser, four are made before the
  page is loaded again and one after. The new instance counts from zero, so the fifth
  failure writes no lock marker, and the sixth attempt, a valid code that the server
  accepts, is not rejected with the lockout error: its request is sent.
\<close>

theorem failures_across_a_reload_counterexample:
  "fst (logins (take 4 five_failed_attempts) (page_load True 0 empty_storage))
     = [Inl RequestFailed, Inl RequestFailed, Inl InvalidEmployeeCode, Inl RequestFailed]
   \<and> fst (login unreachable sample_env (sample_clock 5000) ''E1001'' after_reload) = Inl RequestFailed
   \<and> pms_account_lock (localStorage (snd (snd
         (login unreachable sample_env (sample_clock 5000) ''E1001'' after_reload)))) = None
   \<and> fst (login sample_login_ok sample_env (sample_clock 6000) ''E1001''
         (snd (login unreachable sample_env (sample_clock 5000) ''E1001'' after_reload))) = Inl TypeError
   \<and> length (fetched (snd (snd (login sample_login_ok sample_env (sample_clock 6000) ''E1001''
         (snd (login unreachable sample_env (sample_clock 5000) ''E1001'' after_reload))))))
       = length (fetched (snd (snd (login unreachable sample_env (sample_clock 5000) ''E1001'' after_reload)))) + 1"
proof -
  note p4 = four_failed_attempts_run
  have r: "pms_account_lock (localStorage (snd after_reload)) = None"
    "db_employees (snd after_reload) ''E1001'' = None"
    "isOnline (snd after_reload)" "loginAttempts (fst after_reload) = 0"
    using page_load_empty [OF p4(6,7), of True 4500] p4(2)
    by (simp_all add: after_reload_def)
  note s5 = login_unreachable_step [OF r(1) validate_samples(1) undefined_E1001 [OF r(2)] r(3),
              of sample_env "sample_clock 5000"]
  let ?as5 = "snd (login unreachable sample_env (sample_clock 5000) ''E1001'' after_reload)"
  have q: "pms_account_lock (localStorage (snd ?as5)) = None" "db_employees (snd ?as5) ''E1001'' = None"
    using s5 r by (simp_all add: maxLoginAttempts_def)
  have ok: "sample_login_ok 0 = Some \<lparr>success = True, token = ''tok'', user = [''emp_code'' \<mapsto> ''E1001''], message = None\<rparr>"
    by (simp add: sample_login_ok_def)
  note s6 = login_accepted_step [where net = sample_login_ok and env = sample_env
              and clk = "sample_clock 6000"
              and response = "\<lparr>success = True, token = ''tok'', user = [''emp_code'' \<mapsto> ''E1001''], message = None\<rparr>",
              OF q(1) validate_samples(1) undefined_E1001 [OF q(2)] ok]
  show ?thesis
    using p4(1) s5(1) q(1) s6(1) s6(3) by simp
qed

section \<open>Properties of the calendar fallback\<close>




end
